theory Spec2Isabelle
  imports Complex_Main "HOL-Library.Sublist"
begin

section \<open>Strings and numbers of the host language\<close>

text \<open>
  A TypeScript \<open>number\<close> is modelled as an exact rational: the thresholds, sums and
  comparisons of the detector and of the hotspot scorer are taken over \<open>rat\<close>, without the
  rounding of IEEE doubles and without NaN. Strings are \<open>char list\<close>; \<open>toLowerCase\<close> folds
  the ASCII letters only. Wall-clock readings (\<open>Date.now()\<close>, \<open>Date.getTime()\<close>) are
  integers of milliseconds, and a call reads one clock value \<open>now\<close> for its whole duration.
\<close>

type_synonym number = rat

definition toLowerChar :: "char \<Rightarrow> char" where
  "toLowerChar c =
     (case map_of (zip ''ABCDEFGHIJKLMNOPQRSTUVWXYZ'' ''abcdefghijklmnopqrstuvwxyz'') c of
        Some l \<Rightarrow> l
      | None \<Rightarrow> c)"

definition toLowerCase :: "string \<Rightarrow> string" where
  "toLowerCase s = map toLowerChar s"

text \<open>\<open>s.includes(sub)\<close>: \<open>sub\<close> occurs in \<open>s\<close> as a contiguous run of characters.\<close>

fun str_includes :: "string \<Rightarrow> string \<Rightarrow> bool" where
  "str_includes [] sub = (sub = [])"
| "str_includes (c # cs) sub = (prefix sub (c # cs) \<or> str_includes cs sub)"

text \<open>\<open>s.slice(0, n)\<close>\<close>

definition slice0 :: "nat \<Rightarrow> string \<Rightarrow> string" where
  "slice0 n s = take n s"

text \<open>\<open>Math.round\<close> rounds to the nearest integer, a half going up.\<close>

definition Math_round :: "number \<Rightarrow> number" where
  "Math_round x = of_int \<lfloor>x + 1 / 2\<rfloor>"

subsection \<open>Insertion-ordered \<open>Map\<close> and \<open>Set\<close>\<close>

text \<open>
  A JavaScript \<open>Map\<close> iterates in insertion order and \<open>set\<close> on a key already present
  keeps that key's position: an association list with update in place. A \<open>Set\<close> is a list
  without repetition.
\<close>

type_synonym ('k, 'v) jsmap = "('k \<times> 'v) list"

fun mapSet :: "'k \<Rightarrow> 'v \<Rightarrow> ('k, 'v) jsmap \<Rightarrow> ('k, 'v) jsmap" where
  "mapSet k v [] = [(k, v)]"
| "mapSet k v ((k', v') # m) = (if k' = k then (k, v) # m else (k', v') # mapSet k v m)"

definition mapGet :: "('k, 'v) jsmap \<Rightarrow> 'k \<Rightarrow> 'v option" where
  "mapGet m k = map_of m k"

text \<open>\<open>new Map(pairs)\<close> sets the pairs from left to right.\<close>

definition newMap :: "('k \<times> 'v) list \<Rightarrow> ('k, 'v) jsmap" where
  "newMap pairs = foldl (\<lambda>m (k, v). mapSet k v m) [] pairs"

definition setAdd :: "'a \<Rightarrow> 'a list \<Rightarrow> 'a list" where
  "setAdd x xs = (if x \<in> set xs then xs else xs @ [x])"

text \<open>\<open>[...new Set(xs)]\<close>: the first occurrence of each element, in order.\<close>

definition newSet :: "'a list \<Rightarrow> 'a list" where
  "newSet xs = foldl (\<lambda>acc x. setAdd x acc) [] xs"

section \<open>Types (src/types/index.ts)\<close>

text \<open>Only the fields that the modelled functions read or write are kept.\<close>

record NewsItem =
  source :: string
  title :: string
  link :: string
  pubDate :: int
  isAlert :: bool

record VelocityMetrics =
  sourcesPerHour :: number

record ClusteredEvent =
  ev_id :: string
  primaryTitle :: string
  sourceCount :: number
  allItems :: "NewsItem list"
  velocity :: "VelocityMetrics option"

record MarketData =
  symbol :: string
  md_name :: string
  change :: "number option"

record PredictionMarket =
  pm_title :: string
  yesPrice :: number

section \<open>Source categories (src/config/feeds.ts)\<close>

datatype SourceType = wire | gov | intel | mainstream | market | tech | other

definition SOURCE_TYPES :: "(string \<times> SourceType) list" where
  "SOURCE_TYPES =
    [(''Reuters'', wire), (''Reuters World'', wire), (''Reuters Business'', wire),
     (''AP News'', wire), (''AFP'', wire), (''Bloomberg'', wire),
     (''White House'', gov), (''State Dept'', gov), (''Pentagon'', gov),
     (''Treasury'', gov), (''DOJ'', gov), (''DHS'', gov), (''CDC'', gov),
     (''FEMA'', gov), (''Federal Reserve'', gov), (''SEC'', gov),
     (''Defense One'', intel), (''Breaking Defense'', intel), (''The War Zone'', intel),
     (''Defense News'', intel), (''Bellingcat'', intel), (''Krebs Security'', intel),
     (''Foreign Policy'', intel), (''The Diplomat'', intel),
     (''BBC World'', mainstream), (''BBC Middle East'', mainstream),
     (''Guardian World'', mainstream), (''Guardian ME'', mainstream),
     (''NPR News'', mainstream), (''Al Jazeera'', mainstream),
     (''CNN Middle East'', mainstream),
     (''CNBC'', market), (''MarketWatch'', market), (''Yahoo Finance'', market),
     (''Financial Times'', market),
     (''Hacker News'', tech), (''Ars Technica'', tech), (''The Verge'', tech),
     (''MIT Tech Review'', tech), (''TechCrunch Layoffs'', tech),
     (''AI News'', tech), (''Hugging Face'', tech), (''ArXiv AI'', tech),
     (''VentureBeat AI'', tech), (''OpenAI News'', tech)]"

text \<open>
  \<open>SOURCE_TYPES[sourceName] ?? 'other'\<close>. Source names are feed names; the members that
  a JavaScript object inherits from its prototype are not source names here.
\<close>

definition getSourceType :: "string \<Rightarrow> SourceType" where
  "getSourceType sourceName =
     (case map_of SOURCE_TYPES sourceName of Some t \<Rightarrow> t | None \<Rightarrow> other)"

text \<open>The string that a \<open>SourceType\<close> value is in the program.\<close>

fun sourceTypeName :: "SourceType \<Rightarrow> string" where
  "sourceTypeName wire = ''wire''"
| "sourceTypeName gov = ''gov''"
| "sourceTypeName intel = ''intel''"
| "sourceTypeName mainstream = ''mainstream''"
| "sourceTypeName market = ''market''"
| "sourceTypeName tech = ''tech''"
| "sourceTypeName other = ''other''"

section \<open>Correlation detector (services/correlation.ts)\<close>

datatype SignalType =
  prediction_leads_news | news_leads_markets | silent_divergence
| velocity_spike | convergence | triangulation

text \<open>
  The description of a signal is a template string; the model keeps which template it is
  and the values that fill it, in the order in which they appear in the text.
\<close>

datatype Description =
  PredictionDesc string bool number
| VelocityDesc string number
| DivergenceDesc string bool number
| ConvergenceDesc string "string list" nat
| TriangulationDesc string

record SignalData =
  d_newsVelocity :: "number option"
  d_marketChange :: "number option"
  d_predictionShift :: "number option"
  d_relatedTopics :: "string list option"

text \<open>
  \<open>generateSignalId\<close> joins the clock and a random suffix; the suffix is represented by
  the number of the draw.
\<close>

record CorrelationSignal =
  sig_id :: "int \<times> nat"
  sig_type :: SignalType
  sig_title :: string
  description :: Description
  confidence :: number
  timestamp :: int
  sig_data :: SignalData

record StreamSnapshot =
  newsVelocity :: "(string, number) jsmap"
  marketChanges :: "(string, number) jsmap"
  predictionChanges :: "(string, number) jsmap"
  snap_timestamp :: int

definition PREDICTION_SHIFT_THRESHOLD :: number where
  "PREDICTION_SHIFT_THRESHOLD = 5"

definition MARKET_MOVE_THRESHOLD :: number where
  "MARKET_MOVE_THRESHOLD = 2"

definition NEWS_VELOCITY_THRESHOLD :: number where
  "NEWS_VELOCITY_THRESHOLD = 3"

text \<open>
  The key \<open>`${type}:${identifier}:${roundedValue}`\<close> is kept as the triple of its parts:
  a type name holds no colon and neither does a printed number, so two keys are the same
  string exactly when the three parts agree.
\<close>

type_synonym DedupeKey = "SignalType \<times> string \<times> number"

text \<open>
  The module state: \<open>previousSnapshot\<close>, the set \<open>recentSignalKeys\<close>, the callbacks that
  \<open>setTimeout\<close> has pending (each with the time from which it may run and the key it
  deletes), and the number of random suffixes drawn so far.
\<close>

record DetectorState =
  previousSnapshot :: "StreamSnapshot option"
  recentSignalKeys :: "DedupeKey list"
  timers :: "(int \<times> DedupeKey) list"
  randomDraws :: nat

definition initialState :: DetectorState where
  "initialState =
     \<lparr>previousSnapshot = None, recentSignalKeys = [], timers = [], randomDraws = 0\<rparr>"

definition generateSignalId :: "int \<Rightarrow> DetectorState \<Rightarrow> (int \<times> nat) \<times> DetectorState" where
  "generateSignalId now st = ((now, randomDraws st), st\<lparr>randomDraws := Suc (randomDraws st)\<rparr>)"

definition generateDedupeKey :: "SignalType \<Rightarrow> string \<Rightarrow> number \<Rightarrow> DedupeKey" where
  "generateDedupeKey t identifier v =
     (let roundedValue = Math_round (v * 10) / 10 in (t, identifier, roundedValue))"

definition isRecentDuplicate :: "DedupeKey \<Rightarrow> DetectorState \<Rightarrow> bool" where
  "isRecentDuplicate key st = (key \<in> set (recentSignalKeys st))"

definition markSignalSeen :: "DedupeKey \<Rightarrow> int \<Rightarrow> DetectorState \<Rightarrow> DetectorState" where
  "markSignalSeen key now st =
     st\<lparr>recentSignalKeys := setAdd key (recentSignalKeys st),
        timers := timers st @ [(now + 30 * 60 * 1000, key)]\<rparr>"

text \<open>
  The host's event loop between two calls of the detector: at time \<open>t\<close> every pending
  callback whose delay has passed runs and deletes its key. (A callback that the host runs
  late only keeps its key in the set for longer.)
\<close>

definition runTimers :: "int \<Rightarrow> DetectorState \<Rightarrow> DetectorState" where
  "runTimers t st =
     (let due = filter (\<lambda>(d, k). d \<le> t) (timers st);
          pending = filter (\<lambda>(d, k). \<not> d \<le> t) (timers st)
      in st\<lparr>recentSignalKeys := foldl (\<lambda>keys (d, k). removeAll k keys) (recentSignalKeys st) due,
            timers := pending\<rparr>)"

definition TOPIC_KEYWORDS :: "string list" where
  "TOPIC_KEYWORDS =
    [''iran'', ''israel'', ''ukraine'', ''russia'', ''china'', ''taiwan'', ''oil'', ''crypto'',
     ''fed'', ''interest'', ''inflation'', ''recession'', ''war'', ''sanctions'', ''tariff'',
     ''ai'', ''tech'', ''layoff'', ''trump'', ''biden'', ''election'']"

definition extractTopics :: "ClusteredEvent list \<Rightarrow> (string, number) jsmap" where
  "extractTopics events =
     foldl (\<lambda>topics event.
        let title = toLowerCase (primaryTitle event) in
        foldl (\<lambda>topics kw.
           if str_includes title kw then
             let v = (case velocity event of Some m \<Rightarrow> sourcesPerHour m | None \<Rightarrow> 0) in
             mapSet kw ((case mapGet topics kw of Some x \<Rightarrow> x | None \<Rightarrow> 0) + v + sourceCount event) topics
           else topics) topics TOPIC_KEYWORDS) [] events"

definition TOPIC_MAPPINGS :: "(string \<times> string list) list" where
  "TOPIC_MAPPINGS =
    [(''iran'', [''iran'', ''israel'', ''oil'', ''sanctions'']),
     (''israel'', [''israel'', ''iran'', ''war'', ''gaza'']),
     (''ukraine'', [''ukraine'', ''russia'', ''war'', ''nato'']),
     (''russia'', [''russia'', ''ukraine'', ''sanctions'']),
     (''china'', [''china'', ''taiwan'', ''tariff'', ''trade'']),
     (''taiwan'', [''taiwan'', ''china'']),
     (''trump'', [''trump'', ''election'', ''tariff'']),
     (''fed'', [''fed'', ''interest'', ''inflation'', ''recession'']),
     (''bitcoin'', [''crypto'', ''bitcoin'']),
     (''recession'', [''recession'', ''fed'', ''inflation''])]"

definition findRelatedTopics :: "string \<Rightarrow> string list" where
  "findRelatedTopics prediction =
     (let title = toLowerCase prediction;
          related = foldl (\<lambda>related (key, topics).
                      if str_includes title key then related @ topics else related)
                    [] TOPIC_MAPPINGS
      in newSet related)"

text \<open>
  Each element of the array \<open>signals\<close> is kept together with the \<open>dedupeKey\<close> under which
  it was pushed; the key is not part of the signal and no function of the program reads it
  from there.
\<close>

type_synonym Candidate = "DedupeKey \<times> CorrelationSignal"

definition WINDOW_MS :: int where
  "WINDOW_MS = 30 * 60 * 1000"

text \<open>
  \<open>event.allItems.filter(item => now - item.pubDate.getTime() < WINDOW_MS)\<close> and the set
  of source types collected from a list of items, as \<open>detectConvergence\<close> computes them.
\<close>

definition recentItemsOf :: "int \<Rightarrow> ClusteredEvent \<Rightarrow> NewsItem list" where
  "recentItemsOf now event = filter (\<lambda>item. now - pubDate item < WINDOW_MS) (allItems event)"

definition sourceTypesOf :: "NewsItem list \<Rightarrow> SourceType list" where
  "sourceTypesOf items = foldl (\<lambda>s item. setAdd (getSourceType (source item)) s) [] items"

text \<open>The body of the loop of \<open>detectConvergence\<close>, for one event.\<close>

definition convergenceStep ::
  "int \<Rightarrow> Candidate list \<times> DetectorState \<Rightarrow> ClusteredEvent \<Rightarrow> Candidate list \<times> DetectorState" where
  "convergenceStep now acc event =
     (case acc of (signals, st) \<Rightarrow>
      if length (allItems event) < 3 then (signals, st)
      else
        let recentItems = recentItemsOf now event in
        if length recentItems < 3 then (signals, st)
        else
          let sourceTypes = sourceTypesOf recentItems in
          if length sourceTypes \<ge> 3 then
            let types = filter (\<lambda>t. t \<noteq> other) sourceTypes;
                dedupeKey = generateDedupeKey convergence (ev_id event) (of_nat (length sourceTypes))
            in
            if \<not> isRecentDuplicate dedupeKey st \<and> length types \<ge> 3 then
              let st1 = markSignalSeen dedupeKey now st;
                  (sid, st2) = generateSignalId now st1
              in (signals @
                   [(dedupeKey,
                     \<lparr>sig_id = sid, sig_type = convergence, sig_title = ''Source Convergence'',
                      description = ConvergenceDesc (slice0 50 (primaryTitle event))
                                      (map sourceTypeName types) (length recentItems),
                      confidence = min 0.95 (0.6 + of_nat (length sourceTypes) * 0.1),
                      timestamp = now,
                      sig_data = \<lparr>d_newsVelocity = Some (of_nat (length recentItems)),
                                  d_marketChange = None, d_predictionShift = None,
                                  d_relatedTopics = Some (map sourceTypeName types)\<rparr>\<rparr>)],
                  st2)
            else (signals, st)
          else (signals, st))"

definition detectConvergence ::
  "ClusteredEvent list \<Rightarrow> int \<Rightarrow> DetectorState \<Rightarrow> Candidate list \<times> DetectorState" where
  "detectConvergence events now st = foldl (convergenceStep now) ([], st) events"

definition CRITICAL_TYPES :: "SourceType list" where
  "CRITICAL_TYPES = [wire, gov, intel]"

text \<open>The body of the loop of \<open>detectTriangulation\<close>, for one event.\<close>

definition triangulationStep ::
  "int \<Rightarrow> Candidate list \<times> DetectorState \<Rightarrow> ClusteredEvent \<Rightarrow> Candidate list \<times> DetectorState" where
  "triangulationStep now acc event =
     (case acc of (signals, st) \<Rightarrow>
      if length (allItems event) < 3 then (signals, st)
      else
        let typePresent = foldl (\<lambda>s item.
                             let t = getSourceType (source item) in
                             if t \<in> set CRITICAL_TYPES then setAdd t s else s) [] (allItems event)
        in
        if length typePresent = 3 then
          let dedupeKey = generateDedupeKey triangulation (ev_id event) 3 in
          if \<not> isRecentDuplicate dedupeKey st then
            let st1 = markSignalSeen dedupeKey now st;
                (sid, st2) = generateSignalId now st1
            in (signals @
                 [(dedupeKey,
                   \<lparr>sig_id = sid, sig_type = triangulation, sig_title = ''Intel Triangulation'',
                    description = TriangulationDesc (slice0 45 (primaryTitle event)),
                    confidence = 0.9,
                    timestamp = now,
                    sig_data = \<lparr>d_newsVelocity = Some (sourceCount event),
                                d_marketChange = None, d_predictionShift = None,
                                d_relatedTopics = Some (map sourceTypeName typePresent)\<rparr>\<rparr>)],
                st2)
          else (signals, st)
        else (signals, st))"

definition detectTriangulation ::
  "ClusteredEvent list \<Rightarrow> int \<Rightarrow> DetectorState \<Rightarrow> Candidate list \<times> DetectorState" where
  "detectTriangulation events now st = foldl (triangulationStep now) ([], st) events"

text \<open>\<open>related.reduce((sum, t) => sum + (newsTopics.get(t) ?? 0), 0)\<close>\<close>

definition newsActivityOf :: "(string, number) jsmap \<Rightarrow> string list \<Rightarrow> number" where
  "newsActivityOf newsTopics related =
     foldl (\<lambda>sum t. sum + (case mapGet newsTopics t of Some v \<Rightarrow> v | None \<Rightarrow> 0)) 0 related"

text \<open>The body of the loop over \<open>predictions\<close> (prediction shifts), for one market.\<close>

definition predictionStep ::
  "StreamSnapshot \<Rightarrow> (string, number) jsmap \<Rightarrow> int \<Rightarrow>
   Candidate list \<times> DetectorState \<Rightarrow> PredictionMarket \<Rightarrow> Candidate list \<times> DetectorState" where
  "predictionStep prevSnap newsTopics now acc pred =
     (case acc of (signals, st) \<Rightarrow>
      let key = slice0 50 (pm_title pred) in
      (case mapGet (predictionChanges prevSnap) key of
        None \<Rightarrow> (signals, st)
      | Some prev \<Rightarrow>
          let shift = \<bar>yesPrice pred - prev\<bar> in
          if shift \<ge> PREDICTION_SHIFT_THRESHOLD then
            let related = findRelatedTopics (pm_title pred);
                newsActivity = newsActivityOf newsTopics related;
                dedupeKey = generateDedupeKey prediction_leads_news key shift
            in
            if newsActivity < NEWS_VELOCITY_THRESHOLD \<and> \<not> isRecentDuplicate dedupeKey st then
              let st1 = markSignalSeen dedupeKey now st;
                  (sid, st2) = generateSignalId now st1
              in (signals @
                   [(dedupeKey,
                     \<lparr>sig_id = sid, sig_type = prediction_leads_news,
                      sig_title = ''Prediction Market Shift'',
                      description = PredictionDesc (slice0 60 (pm_title pred)) (shift > 0) shift,
                      confidence = min 0.9 (0.5 + shift / 20),
                      timestamp = now,
                      sig_data = \<lparr>d_newsVelocity = Some newsActivity,
                                  d_marketChange = None, d_predictionShift = Some shift,
                                  d_relatedTopics = Some related\<rparr>\<rparr>)],
                  st2)
            else (signals, st)
          else (signals, st)))"

text \<open>The body of the loop over \<open>newsTopics\<close> (velocity spikes), for one entry.\<close>

definition velocityStep ::
  "StreamSnapshot \<Rightarrow> int \<Rightarrow>
   Candidate list \<times> DetectorState \<Rightarrow> string \<times> number \<Rightarrow> Candidate list \<times> DetectorState" where
  "velocityStep prevSnap now acc entry =
     (case acc of (signals, st) \<Rightarrow>
      case entry of (topic, v) \<Rightarrow>
      let prevVelocity = (case mapGet (newsVelocity prevSnap) topic of Some x \<Rightarrow> x | None \<Rightarrow> 0) in
      if v > NEWS_VELOCITY_THRESHOLD * 2 \<and> v > prevVelocity * 2 then
        let dedupeKey = generateDedupeKey velocity_spike topic v in
        if \<not> isRecentDuplicate dedupeKey st then
          let st1 = markSignalSeen dedupeKey now st;
              (sid, st2) = generateSignalId now st1
          in (signals @
               [(dedupeKey,
                 \<lparr>sig_id = sid, sig_type = velocity_spike, sig_title = ''News Velocity Spike'',
                  description = VelocityDesc topic v,
                  confidence = min 0.85 (0.4 + v / 20),
                  timestamp = now,
                  sig_data = \<lparr>d_newsVelocity = Some v,
                              d_marketChange = None, d_predictionShift = None,
                              d_relatedTopics = Some [topic]\<rparr>\<rparr>)],
              st2)
        else (signals, st)
      else (signals, st))"

text \<open>The body of the loop over \<open>markets\<close> (silent divergence), for one market.\<close>

definition divergenceStep ::
  "(string, number) jsmap \<Rightarrow> int \<Rightarrow>
   Candidate list \<times> DetectorState \<Rightarrow> MarketData \<Rightarrow> Candidate list \<times> DetectorState" where
  "divergenceStep newsTopics now acc m =
     (case acc of (signals, st) \<Rightarrow>
      let chg = \<bar>case change m of Some c \<Rightarrow> c | None \<Rightarrow> 0\<bar> in
      if chg \<ge> MARKET_MOVE_THRESHOLD then
        let relatedNews =
              foldl (\<lambda>sum (k, v). sum + v) 0
                (filter (\<lambda>(k, v). str_includes (toLowerCase (md_name m)) k
                                  \<or> str_includes k (toLowerCase (symbol m))) newsTopics);
            dedupeKey = generateDedupeKey silent_divergence (symbol m) chg
        in
        if relatedNews < 2 \<and> \<not> isRecentDuplicate dedupeKey st then
          let st1 = markSignalSeen dedupeKey now st;
              (sid, st2) = generateSignalId now st1
          in (signals @
               [(dedupeKey,
                 \<lparr>sig_id = sid, sig_type = silent_divergence,
                  sig_title = ''Unexplained Market Move'',
                  description = DivergenceDesc (md_name m)
                                  ((case change m of Some c \<Rightarrow> c | None \<Rightarrow> 0) > 0)
                                  (case change m of Some c \<Rightarrow> c | None \<Rightarrow> 0),
                  confidence = min 0.8 (0.4 + chg / 10),
                  timestamp = now,
                  sig_data = \<lparr>d_newsVelocity = Some relatedNews,
                              d_marketChange = change m, d_predictionShift = None,
                              d_relatedTopics = None\<rparr>\<rparr>)],
              st2)
        else (signals, st)
      else (signals, st))"

text \<open>\<open>xs.findIndex(p)\<close>: the index of the first element that satisfies \<open>p\<close>, or \<open>-1\<close>.\<close>

fun findIndex :: "('a \<Rightarrow> bool) \<Rightarrow> 'a list \<Rightarrow> int" where
  "findIndex p [] = - 1"
| "findIndex p (x # xs) =
     (if p x then 0 else (let i = findIndex p xs in if i < 0 then - 1 else i + 1))"

text \<open>
  \<open>signals.filter((sig, idx) => signals.findIndex(s => s.type === sig.type) === idx)\<close>
\<close>

definition dedupeByType :: "Candidate list \<Rightarrow> Candidate list" where
  "dedupeByType signals =
     map snd (filter (\<lambda>(idx, sg). findIndex (\<lambda>s. sig_type (snd s) = sig_type (snd sg)) signals = int idx)
                (enumerate 0 signals))"

text \<open>
  The snapshot that \<open>analyzeCorrelations\<close> builds from its arguments at the start of a call.
\<close>

definition currentSnapshot ::
  "ClusteredEvent list \<Rightarrow> PredictionMarket list \<Rightarrow> MarketData list \<Rightarrow> int \<Rightarrow> StreamSnapshot" where
  "currentSnapshot events predictions markets now =
     \<lparr>newsVelocity = extractTopics events,
      marketChanges = newMap (map (\<lambda>m. (symbol m, case change m of Some c \<Rightarrow> c | None \<Rightarrow> 0)) markets),
      predictionChanges = newMap (map (\<lambda>p. (slice0 50 (pm_title p), yesPrice p)) predictions),
      snap_timestamp = now\<rparr>"

text \<open>
  The part of \<open>analyzeCorrelations\<close> that fills the array \<open>signals\<close> once a previous
  snapshot \<open>prevSnap\<close> is known to exist: the three loops, the assignment of the new
  snapshot, then convergence and triangulation.
\<close>

definition collectSignals ::
  "ClusteredEvent list \<Rightarrow> PredictionMarket list \<Rightarrow> MarketData list \<Rightarrow> int \<Rightarrow>
   StreamSnapshot \<Rightarrow> DetectorState \<Rightarrow> Candidate list \<times> DetectorState" where
  "collectSignals events predictions markets now prevSnap st =
     (let newsTopics = extractTopics events;
          acc1 = foldl (predictionStep prevSnap newsTopics now) ([], st) predictions;
          acc2 = foldl (velocityStep prevSnap now) acc1 newsTopics;
          (signals, st3) = foldl (divergenceStep newsTopics now) acc2 markets;
          st4 = st3\<lparr>previousSnapshot := Some (currentSnapshot events predictions markets now)\<rparr>;
          (conv, st5) = detectConvergence events now st4;
          (tri, st6) = detectTriangulation events now st5
      in (signals @ conv @ tri, st6))"

definition analyzeCorrelations ::
  "ClusteredEvent list \<Rightarrow> PredictionMarket list \<Rightarrow> MarketData list \<Rightarrow> int \<Rightarrow>
   DetectorState \<Rightarrow> CorrelationSignal list \<times> DetectorState" where
  "analyzeCorrelations events predictions markets now st =
     (case previousSnapshot st of
        None \<Rightarrow>
          ([], st\<lparr>previousSnapshot := Some (currentSnapshot events predictions markets now)\<rparr>)
      | Some prevSnap \<Rightarrow>
          let (signals, st') = collectSignals events predictions markets now prevSnap st;
              uniqueSignals = map snd (dedupeByType signals)
          in (filter (\<lambda>s. confidence s \<ge> 0.6) uniqueSignals, st'))"

section \<open>Hotspot activity (components/Map.ts, config/geo.ts)\<close>

datatype Level = low | elevated | high

text \<open>
  A hotspot with the derived state that \<open>updateHotspotActivity\<close> writes
  (\<open>HotspotWithBreaking\<close>); an optional field that is absent is \<open>None\<close>.
\<close>

record Hotspot =
  hs_id :: string
  hs_name :: string
  hs_keywords :: "string list"
  agencies :: "string list option"
  level :: "Level option"
  status :: "string option"
  hasBreaking :: "bool option"

text \<open>The two fields of the map component that the modelled methods use.\<close>

record MapComponent =
  news :: "NewsItem list"
  hotspots :: "Hotspot list"

text \<open>
  \<open>hotspot.keywords.filter((kw) => titleLower.includes(kw.toLowerCase()))\<close>, the first
  computation of both methods for an item; \<open>keywordInTitle titleLower\<close> is the predicate
  of the filter.
\<close>

definition keywordInTitle :: "string \<Rightarrow> string \<Rightarrow> bool" where
  "keywordInTitle titleLower kw = str_includes titleLower (toLowerCase kw)"

definition matchedKeywords :: "Hotspot \<Rightarrow> NewsItem \<Rightarrow> string list" where
  "matchedKeywords hotspot item =
     (let titleLower = toLowerCase (title item)
      in filter (keywordInTitle titleLower) (hs_keywords hotspot))"

definition conflictTopics :: "string list" where
  "conflictTopics =
     [''gaza'', ''ukraine'', ''russia'', ''israel'', ''iran'', ''china'', ''taiwan'', ''korea'', ''syria'']"

text \<open>The function mapped over \<open>this.news\<close> in \<open>getRelatedNews\<close>; \<open>null\<close> is \<open>None\<close>.\<close>

definition relatedEntry :: "Hotspot \<Rightarrow> NewsItem \<Rightarrow> (NewsItem \<times> nat) option" where
  "relatedEntry hotspot item =
     (let titleLower = toLowerCase (title item);
          matched = matchedKeywords hotspot item
      in
      if length matched = 0 then None
      else
        let conflictMatches =
              filter (\<lambda>t. str_includes titleLower t
                          \<and> \<not> (\<exists>k \<in> set (hs_keywords hotspot). str_includes (toLowerCase k) t))
                conflictTopics
        in
        if length conflictMatches > 0 then
          let strongLocalMatch =
                (\<exists>kw \<in> set matched.
                    toLowerCase kw = toLowerCase (hs_name hotspot)
                    \<or> (case agencies hotspot of
                          None \<Rightarrow> False
                        | Some ags \<Rightarrow> \<exists>a \<in> set ags. str_includes titleLower (toLowerCase a)))
          in
          if \<not> strongLocalMatch then None else Some (item, length matched)
        else Some (item, length matched))"

text \<open>
  \<open>.sort((a, b) => b.score - a.score)\<close> is a stable sort by descending score: an
  insertion sort on the negated score.
\<close>

definition getRelatedNews :: "Hotspot \<Rightarrow> MapComponent \<Rightarrow> NewsItem list" where
  "getRelatedNews hotspot this =
     map fst
       (take 5
          (sort_key (\<lambda>x. - int (snd x))
             (List.map_filter (relatedEntry hotspot) (news this))))"

text \<open>
  The body of \<open>news.forEach\<close> in \<open>updateHotspotActivity\<close>, on the three counters
  \<open>(score, hasBreaking, matchedCount)\<close>. The type \<open>NewsItem\<close> makes \<open>pubDate\<close> a
  \<open>Date\<close>, so the test \<open>if (item.pubDate)\<close> succeeds and the recency bonus is always
  considered.
\<close>

definition tallyStep :: "Hotspot \<Rightarrow> int \<Rightarrow> number \<times> bool \<times> nat \<Rightarrow> NewsItem \<Rightarrow> number \<times> bool \<times> nat" where
  "tallyStep spot now acc item =
     (case acc of (score, breaking, matchedCount) \<Rightarrow>
      let matches = matchedKeywords spot item in
      if length matches > 0 then
        let matchedCount1 = matchedCount + 1;
            score1 = score + of_nat (length matches) * 2;
            score2 = (if isAlert item then score1 + 5 else score1);
            breaking2 = (if isAlert item then True else breaking);
            hoursAgo = (of_int (now - pubDate item) / (1000 * 60 * 60) :: number);
            score3 = (if hoursAgo < 1 then score2 + 3
                      else if hoursAgo < 6 then score2 + 2
                      else if hoursAgo < 24 then score2 + 1
                      else score2)
        in (score3, breaking2, matchedCount1)
      else (score, breaking, matchedCount))"

text \<open>
  The level and status that the \<open>if\<close> chain of \<open>updateHotspotActivity\<close> assigns, as a
  function of the three counters.
\<close>

definition activityLevel :: "bool \<Rightarrow> nat \<Rightarrow> number \<Rightarrow> Level \<times> string" where
  "activityLevel breaking matchedCount score =
     (if breaking \<or> matchedCount \<ge> 4 \<or> score \<ge> 10 then
        (high, if breaking then ''BREAKING NEWS'' else ''High activity'')
      else if matchedCount \<ge> 2 \<or> score \<ge> 4 then (elevated, ''Elevated activity'')
      else if matchedCount \<ge> 1 then (low, ''Recent mentions'')
      else (low, ''Monitoring''))"

text \<open>The body of \<open>this.hotspots.forEach\<close>, for one hotspot.\<close>

definition updateHotspot :: "NewsItem list \<Rightarrow> int \<Rightarrow> Hotspot \<Rightarrow> Hotspot" where
  "updateHotspot items now spot =
     (case foldl (tallyStep spot now) (0, False, 0) items of (score, breaking, matchedCount) \<Rightarrow>
      case activityLevel breaking matchedCount score of (lv, stat) \<Rightarrow>
      spot\<lparr>hasBreaking := Some breaking, level := Some lv, status := Some stat\<rparr>)"

definition updateHotspotActivity :: "NewsItem list \<Rightarrow> int \<Rightarrow> MapComponent \<Rightarrow> MapComponent" where
  "updateHotspotActivity items now this =
     this\<lparr>news := items, hotspots := map (updateHotspot items now) (hotspots this)\<rparr>"

text \<open>Two entries of \<open>INTEL_HOTSPOTS\<close>.\<close>

definition hotspot_dc :: Hotspot where
  "hotspot_dc =
     \<lparr>hs_id = ''dc'', hs_name = ''DC'',
      hs_keywords = [''pentagon'', ''white house'', ''congress'', ''cia'', ''nsa'', ''washington'',
                  ''biden'', ''trump'', ''house'', ''senate'', ''supreme court'', ''vance'',
                  ''elon'', ''us ''],
      agencies = Some [''Pentagon'', ''CIA'', ''NSA'', ''State Dept''],
      level = None, status = Some ''Monitoring'', hasBreaking = None\<rparr>"

definition hotspot_telaviv :: Hotspot where
  "hotspot_telaviv =
     \<lparr>hs_id = ''telaviv'', hs_name = ''Tel Aviv'',
      hs_keywords = [''israel'', ''idf'', ''mossad'', ''gaza'', ''netanyahu'', ''israeli'',
                  ''hamas'', ''hezbollah''],
      agencies = Some [''IDF'', ''Mossad'', ''Shin Bet''],
      level = None, status = Some ''Monitoring'', hasBreaking = None\<rparr>"

section \<open>Auxiliary notions for the proofs\<close>

text \<open>
  The array \<open>signals\<close> of a call as it stands before the two output filters; it is empty
  on a cold start, where the call returns before any detection.
\<close>

definition candidatesOf ::
  "ClusteredEvent list \<Rightarrow> PredictionMarket list \<Rightarrow> MarketData list \<Rightarrow> int \<Rightarrow>
   DetectorState \<Rightarrow> Candidate list" where
  "candidatesOf events predictions markets now st =
     (case previousSnapshot st of
        None \<Rightarrow> []
      | Some prevSnap \<Rightarrow> fst (collectSignals events predictions markets now prevSnap st))"

text \<open>
  What a run of detection loops does to the set of keys and to the timers, given the
  candidates \<open>new\<close> that it pushed: their keys are pairwise different, none was in the set
  before, and each was added to the set together with a timer of 30 minutes.
\<close>

definition marks :: "int \<Rightarrow> DetectorState \<Rightarrow> Candidate list \<Rightarrow> DetectorState \<Rightarrow> bool" where
  "marks now st new st' \<longleftrightarrow>
     distinct (map fst new)
     \<and> (\<forall>c \<in> set new. fst c \<notin> set (recentSignalKeys st))
     \<and> recentSignalKeys st' = recentSignalKeys st @ map fst new
     \<and> timers st' = timers st @ map (\<lambda>c. (now + 30 * 60 * 1000, fst c)) new"

text \<open>The state after one push under the key \<open>k\<close>.\<close>

definition pushed :: "int \<Rightarrow> DedupeKey \<Rightarrow> DetectorState \<Rightarrow> DetectorState" where
  "pushed now k st = snd (generateSignalId now (markSignalSeen k now st))"

text \<open>
  Facts that hold of every candidate, whichever loop pushed it: its confidence is at least
  0.6, the type in its key is the type of its signal, and the confidence of a prediction
  shift or of a convergence lies within the bounds that the thresholds imply.
\<close>

definition candidateOK :: "Candidate \<Rightarrow> bool" where
  "candidateOK c \<longleftrightarrow>
     6 / 10 \<le> confidence (snd c)
     \<and> fst (fst c) = sig_type (snd c)
     \<and> (sig_type (snd c) = prediction_leads_news \<longrightarrow>
          3 / 4 \<le> confidence (snd c) \<and> confidence (snd c) \<le> 9 / 10)
     \<and> (sig_type (snd c) = convergence \<longrightarrow> 9 / 10 \<le> confidence (snd c))"

text \<open>
  The shape shared by the five loop bodies: a step leaves the array and the state as they
  are, or it pushes one candidate whose key was not in the set and marks that key.
\<close>

definition stepLike ::
  "int \<Rightarrow> (Candidate list \<times> DetectorState \<Rightarrow> 'x \<Rightarrow> Candidate list \<times> DetectorState) \<Rightarrow> bool" where
  "stepLike now f \<longleftrightarrow>
     (\<forall>sigs st x. f (sigs, st) x = (sigs, st)
        \<or> (\<exists>k s. \<not> isRecentDuplicate k st \<and> candidateOK (k, s)
               \<and> f (sigs, st) x = (sigs @ [(k, s)], pushed now k st)))"

text \<open>The prediction market of the end-to-end scenario, at a given price.\<close>

definition fedMarket :: "number \<Rightarrow> PredictionMarket" where
  "fedMarket p = \<lparr>pm_title = ''Will the Fed cut rates in March'', yesPrice = p\<rparr>"

text \<open>The signal that the scenario yields at its second cycle, 300 seconds after the first.\<close>

definition fedSignal :: CorrelationSignal where
  "fedSignal =
     \<lparr>sig_id = (300000, 0), sig_type = prediction_leads_news,
      sig_title = ''Prediction Market Shift'',
      description = PredictionDesc ''Will the Fed cut rates in March'' True 7,
      confidence = 17 / 20, timestamp = 300000,
      sig_data = \<lparr>d_newsVelocity = Some 0, d_marketChange = None, d_predictionShift = Some 7,
                  d_relatedTopics = Some [''fed'', ''interest'', ''inflation'', ''recession'']\<rparr>\<rparr>"

text \<open>
  Clusters for the convergence scenarios: every item is titled "Summit talks open" (a title
  that holds none of the topic keywords), was published at time 500000 and comes from one
  of the given sources. \<open>emptyCycleState\<close> is the detector after a first cycle without data.
\<close>

definition summitItem :: "string \<Rightarrow> NewsItem" where
  "summitItem src =
     \<lparr>source = src, title = ''Summit talks open'', link = src, pubDate = 500000, isAlert = False\<rparr>"

definition summitCluster :: "string \<Rightarrow> string list \<Rightarrow> ClusteredEvent" where
  "summitCluster i srcs =
     \<lparr>ev_id = i, primaryTitle = ''Summit talks open'', sourceCount = of_nat (length srcs),
      allItems = map summitItem srcs, velocity = None\<rparr>"

definition emptyCycleState :: DetectorState where
  "emptyCycleState = snd (analyzeCorrelations [] [] [] 0 initialState)"

text \<open>
  The pending callbacks agree with the set of keys: no key has two callbacks pending, and
  every pending callback deletes a key that is in the set. This holds initially and is
  kept by every call of the detector and by the event loop.
\<close>

definition timersConsistent :: "DetectorState \<Rightarrow> bool" where
  "timersConsistent st \<longleftrightarrow>
     distinct (map snd (timers st)) \<and> snd ` set (timers st) \<subseteq> set (recentSignalKeys st)"

text \<open>
  A market whose name matches no news topic, with a given percentage change, and the
  silent-divergence signal that a cycle at time 300000 generates second for it.
\<close>

definition quietMarket :: "string \<Rightarrow> number \<Rightarrow> MarketData" where
  "quietMarket ticker chg = \<lparr>symbol = ticker, md_name = ticker, change = Some chg\<rparr>"

definition secondDivergence :: CorrelationSignal where
  "secondDivergence =
     \<lparr>sig_id = (300000, 1), sig_type = silent_divergence, sig_title = ''Unexplained Market Move'',
      description = DivergenceDesc ''BBB'' True 4,
      confidence = 4 / 5, timestamp = 300000,
      sig_data = \<lparr>d_newsVelocity = Some 0, d_marketChange = Some 4, d_predictionShift = None,
                  d_relatedTopics = None\<rparr>\<rparr>"

section \<open>The hotspot rules in the words of the specification\<close>

text \<open>
  An item matches a hotspot when its title holds at least one keyword of the hotspot. The
  matched count is the number of matching items; breaking news is present when a matching
  item is flagged as an alert; the score adds, over the matching items, twice the number of
  matched keywords, 5 for an alert, and a bonus of 3, 2 or 1 for an age below 1, 6 or 24
  hours.
\<close>

definition matchesHotspot :: "Hotspot \<Rightarrow> NewsItem \<Rightarrow> bool" where
  "matchesHotspot spot item \<longleftrightarrow> matchedKeywords spot item \<noteq> []"

definition spec_matchedCount :: "Hotspot \<Rightarrow> NewsItem list \<Rightarrow> nat" where
  "spec_matchedCount spot items = length (filter (matchesHotspot spot) items)"

definition spec_breaking :: "Hotspot \<Rightarrow> NewsItem list \<Rightarrow> bool" where
  "spec_breaking spot items \<longleftrightarrow> (\<exists>item \<in> set items. matchesHotspot spot item \<and> isAlert item)"

definition spec_recencyBonus :: "int \<Rightarrow> NewsItem \<Rightarrow> number" where
  "spec_recencyBonus now item =
     (let age = now - pubDate item in
      if age < 3600000 then 3 else if age < 6 * 3600000 then 2 else if age < 24 * 3600000 then 1 else 0)"

definition spec_itemScore :: "Hotspot \<Rightarrow> int \<Rightarrow> NewsItem \<Rightarrow> number" where
  "spec_itemScore spot now item =
     2 * of_nat (length (matchedKeywords spot item)) + (if isAlert item then 5 else 0)
       + spec_recencyBonus now item"

definition spec_score :: "Hotspot \<Rightarrow> int \<Rightarrow> NewsItem list \<Rightarrow> number" where
  "spec_score spot now items = sum_list (map (spec_itemScore spot now) (filter (matchesHotspot spot) items))"

definition spec_level :: "bool \<Rightarrow> nat \<Rightarrow> number \<Rightarrow> Level" where
  "spec_level breaking matchedCount score =
     (if breaking \<or> matchedCount \<ge> 4 \<or> score \<ge> 10 then high
      else if matchedCount \<ge> 2 \<or> score \<ge> 4 then elevated
      else low)"

definition spec_status :: "bool \<Rightarrow> nat \<Rightarrow> number \<Rightarrow> string" where
  "spec_status breaking matchedCount score =
     (if breaking then ''BREAKING NEWS''
      else if matchedCount \<ge> 4 \<or> score \<ge> 10 then ''High activity''
      else if matchedCount \<ge> 2 \<or> score \<ge> 4 then ''Elevated activity''
      else if matchedCount \<ge> 1 then ''Recent mentions''
      else ''Monitoring'')"

text \<open>The order \<open>low < elevated < high\<close>.\<close>

fun severity :: "Level \<Rightarrow> nat" where
  "severity low = 0"
| "severity elevated = 1"
| "severity high = 2"

text \<open>
  The two conditions of the cross-topic rule of \<open>getRelatedNews\<close>: the title mentions a
  conflict topic that no keyword of the hotspot covers; and a strong local marker, which is
  a matched keyword equal to the name of the hotspot or a listed agency in the title.
\<close>

definition mentionsOtherConflict :: "Hotspot \<Rightarrow> NewsItem \<Rightarrow> bool" where
  "mentionsOtherConflict hotspot item \<longleftrightarrow>
     (\<exists>t \<in> set conflictTopics.
        str_includes (toLowerCase (title item)) t
        \<and> \<not> (\<exists>k \<in> set (hs_keywords hotspot). str_includes (toLowerCase k) t))"

definition strongLocalMarker :: "Hotspot \<Rightarrow> NewsItem \<Rightarrow> bool" where
  "strongLocalMarker hotspot item \<longleftrightarrow>
     (\<exists>kw \<in> set (matchedKeywords hotspot item). toLowerCase kw = toLowerCase (hs_name hotspot))
     \<or> (\<exists>ags. agencies hotspot = Some ags
           \<and> (\<exists>a \<in> set ags. str_includes (toLowerCase (title item)) (toLowerCase a)))"

text \<open>News items of the scenarios, published at time 0.\<close>

definition newsItem :: "string \<Rightarrow> bool \<Rightarrow> NewsItem" where
  "newsItem t alert = \<lparr>source = ''Reuters'', title = t, link = t, pubDate = 0, isAlert = alert\<rparr>"

text \<open>
  An item stays among the related news of a hotspot when it matches the hotspot and, if it
  mentions another conflict, also has a strong local marker.
\<close>

definition keepsRelated :: "Hotspot \<Rightarrow> NewsItem \<Rightarrow> bool" where
  "keepsRelated hotspot item \<longleftrightarrow>
     matchesHotspot hotspot item
     \<and> (mentionsOtherConflict hotspot item \<longrightarrow> strongLocalMarker hotspot item)"

text \<open>A map component that holds the given news and the hotspot "dc".\<close>

definition dcMap :: "NewsItem list \<Rightarrow> MapComponent" where
  "dcMap items = \<lparr>news = items, hotspots = [hotspot_dc]\<rparr>"

section \<open>The loops of the detector\<close>

lemma marks_refl: "marks now st [] st"
  by (simp add: marks_def)

lemma marks_trans:
  assumes "marks now st n1 st1" and "marks now st1 n2 st2"
  shows "marks now st (n1 @ n2) st2"
  using assms unfolding marks_def by (auto simp: image_iff) force

lemma marks_push:
  assumes "\<not> isRecentDuplicate k st"
  shows "marks now st [(k, s)] (pushed now k st)"
  using assms by (simp add: marks_def pushed_def isRecentDuplicate_def generateSignalId_def markSignalSeen_def setAdd_def)

lemma marks_snapshot: "marks now st new st' \<Longrightarrow> marks now st new (st'\<lparr>previousSnapshot := x\<rparr>)"
  by (simp add: marks_def)

lemma marks_from_snapshot: "marks now (st\<lparr>previousSnapshot := x\<rparr>) new st' \<Longrightarrow> marks now st new st'"
  by (simp add: marks_def)

lemma pushed_snapshot: "previousSnapshot (pushed now k st) = previousSnapshot st"
  by (simp add: pushed_def generateSignalId_def markSignalSeen_def)

lemma stepLike_one:
  assumes "stepLike now f"
  shows "\<exists>new st'. f (sigs, st) x = (sigs @ new, st') \<and> marks now st new st'
          \<and> (\<forall>c \<in> set new. candidateOK c) \<and> previousSnapshot st' = previousSnapshot st"
proof (cases "f (sigs, st) x = (sigs, st)")
  case True
  then show ?thesis using marks_refl[of now st] by (intro exI[of _ "[]"] exI[of _ st]) simp
next
  case False
  with assms obtain k s where "\<not> isRecentDuplicate k st" "candidateOK (k, s)"
     "f (sigs, st) x = (sigs @ [(k, s)], pushed now k st)"
    unfolding stepLike_def by blast
  then show ?thesis using marks_push[of k st now s] pushed_snapshot[of now k st]
    by (intro exI[of _ "[(k, s)]"] exI[of _ "pushed now k st"]) simp
qed

lemma foldl_stepLike:
  assumes "stepLike now f"
  shows "\<exists>new st'. foldl f (sigs, st) xs = (sigs @ new, st') \<and> marks now st new st'
          \<and> (\<forall>c \<in> set new. candidateOK c) \<and> previousSnapshot st' = previousSnapshot st"
proof (induction xs arbitrary: sigs st)
  case Nil
  show ?case by (simp add: marks_refl)
next
  case (Cons x xs)
  from stepLike_one[OF assms, of sigs st x]
  obtain n1 st1 where s1: "f (sigs, st) x = (sigs @ n1, st1)" "marks now st n1 st1"
      "\<forall>c \<in> set n1. candidateOK c" "previousSnapshot st1 = previousSnapshot st"
    by blast
  from Cons.IH[of "sigs @ n1" st1] obtain n2 st2 where
    s2: "foldl f (sigs @ n1, st1) xs = ((sigs @ n1) @ n2, st2)" "marks now st1 n2 st2"
      "\<forall>c \<in> set n2. candidateOK c" "previousSnapshot st2 = previousSnapshot st1"
    by blast
  have "foldl f (sigs, st) (x # xs) = (sigs @ (n1 @ n2), st2)" using s1 s2 by simp
  moreover have "marks now st (n1 @ n2) st2" using s1 s2 marks_trans by blast
  moreover have "\<forall>c \<in> set (n1 @ n2). candidateOK c" using s1 s2 by auto
  moreover have "previousSnapshot st2 = previousSnapshot st" using s1 s2 by simp
  ultimately show ?case by blast
qed

lemma predictionStep_stepLike: "stepLike now (predictionStep prevSnap newsTopics now)"
  unfolding stepLike_def
  by (auto simp: predictionStep_def Let_def pushed_def generateSignalId_def generateDedupeKey_def
           candidateOK_def PREDICTION_SHIFT_THRESHOLD_def min_def
           split: option.splits)

lemma velocityStep_stepLike: "stepLike now (velocityStep prevSnap now)"
  unfolding stepLike_def
  by (auto simp: velocityStep_def Let_def pushed_def generateSignalId_def generateDedupeKey_def
           candidateOK_def NEWS_VELOCITY_THRESHOLD_def min_def
           split: option.splits)

lemma divergenceStep_stepLike: "stepLike now (divergenceStep newsTopics now)"
  unfolding stepLike_def
  by (auto simp: divergenceStep_def Let_def pushed_def generateSignalId_def generateDedupeKey_def
           candidateOK_def MARKET_MOVE_THRESHOLD_def min_def
           split: option.splits)

lemma convergenceStep_stepLike: "stepLike now (convergenceStep now)"
  unfolding stepLike_def
  by (auto simp: convergenceStep_def Let_def pushed_def generateSignalId_def generateDedupeKey_def
           candidateOK_def min_def
           split: option.splits)

lemma triangulationStep_stepLike: "stepLike now (triangulationStep now)"
  unfolding stepLike_def
  by (auto simp: triangulationStep_def Let_def pushed_def generateSignalId_def generateDedupeKey_def
           candidateOK_def min_def
           split: option.splits)

lemma collectSignals_summary:
  "\<exists>s1 st3 conv st5 tri st6.
     foldl (divergenceStep (extractTopics events) now)
       (foldl (velocityStep prevSnap now)
          (foldl (predictionStep prevSnap (extractTopics events) now) ([], st) predictions)
          (extractTopics events)) markets = (s1, st3)
     \<and> detectConvergence events now
          (st3\<lparr>previousSnapshot := Some (currentSnapshot events predictions markets now)\<rparr>) = (conv, st5)
     \<and> detectTriangulation events now st5 = (tri, st6)
     \<and> collectSignals events predictions markets now prevSnap st = (s1 @ conv @ tri, st6)
     \<and> marks now st s1 st3
     \<and> marks now st (s1 @ conv) st5
     \<and> marks now st (s1 @ conv @ tri) st6
     \<and> (\<forall>c \<in> set (s1 @ conv @ tri). candidateOK c)
     \<and> previousSnapshot st6 = Some (currentSnapshot events predictions markets now)"
proof -
  let ?nt = "extractTopics events"
  let ?cur = "currentSnapshot events predictions markets now"
  obtain n1 st1 where a1: "foldl (predictionStep prevSnap ?nt now) ([], st) predictions = ([] @ n1, st1)"
      "marks now st n1 st1" "\<forall>c \<in> set n1. candidateOK c"
    using foldl_stepLike[OF predictionStep_stepLike[of now prevSnap ?nt], of "[]" st predictions] by blast
  obtain n2 st2 where a2: "foldl (velocityStep prevSnap now) (n1, st1) ?nt = (n1 @ n2, st2)"
      "marks now st1 n2 st2" "\<forall>c \<in> set n2. candidateOK c"
    using foldl_stepLike[OF velocityStep_stepLike[of now prevSnap], of n1 st1 ?nt] by blast
  obtain n3 st3 where a3: "foldl (divergenceStep ?nt now) (n1 @ n2, st2) markets = ((n1 @ n2) @ n3, st3)"
      "marks now st2 n3 st3" "\<forall>c \<in> set n3. candidateOK c"
    using foldl_stepLike[OF divergenceStep_stepLike[of now ?nt], of "n1 @ n2" st2 markets] by blast
  let ?st4 = "st3\<lparr>previousSnapshot := Some ?cur\<rparr>"
  obtain conv st5 where a4: "foldl (convergenceStep now) ([], ?st4) events = ([] @ conv, st5)"
      "marks now ?st4 conv st5" "\<forall>c \<in> set conv. candidateOK c" "previousSnapshot st5 = previousSnapshot ?st4"
    using foldl_stepLike[OF convergenceStep_stepLike[of now], of "[]" ?st4 events] by blast
  obtain tri st6 where a5: "foldl (triangulationStep now) ([], st5) events = ([] @ tri, st6)"
      "marks now st5 tri st6" "\<forall>c \<in> set tri. candidateOK c" "previousSnapshot st6 = previousSnapshot st5"
    using foldl_stepLike[OF triangulationStep_stepLike[of now], of "[]" st5 events] by blast
  let ?s1 = "n1 @ n2 @ n3"
  have m3: "marks now st ?s1 st3"
    using marks_trans[OF a1(2) marks_trans[OF a2(2) a3(2)]] .
  have m4: "marks now st3 conv st5" using a4(2) by (rule marks_from_snapshot)
  have m5: "marks now st (?s1 @ conv) st5" using marks_trans[OF m3 m4] .
  have m6: "marks now st ((?s1 @ conv) @ tri) st6" using marks_trans[OF m5 a5(2)] .
  have loops: "foldl (divergenceStep ?nt now)
       (foldl (velocityStep prevSnap now)
          (foldl (predictionStep prevSnap ?nt now) ([], st) predictions) ?nt) markets = (?s1, st3)"
    using a1 a2 a3 by simp
  have conv: "detectConvergence events now ?st4 = (conv, st5)"
    using a4 by (simp add: detectConvergence_def)
  have tri: "detectTriangulation events now st5 = (tri, st6)"
    using a5 by (simp add: detectTriangulation_def)
  have coll: "collectSignals events predictions markets now prevSnap st = (?s1 @ conv @ tri, st6)"
    using loops conv tri by (simp add: collectSignals_def Let_def)
  have ok: "\<forall>c \<in> set (?s1 @ conv @ tri). candidateOK c"
    using a1(3) a2(3) a3(3) a4(3) a5(3) by auto
  have snap: "previousSnapshot st6 = Some ?cur" using a4(4) a5(4) by simp
  show ?thesis
    using loops conv tri coll m3 m5 m6 ok snap
    by (intro exI[of _ ?s1] exI[of _ st3] exI[of _ conv] exI[of _ st5] exI[of _ tri] exI[of _ st6]) simp
qed

section \<open>The output filters\<close>

lemma findIndex_bounds: "- 1 \<le> findIndex p xs \<and> findIndex p xs < int (length xs)"
  by (induction xs) (auto simp: Let_def)

lemma findIndex_neg_iff: "findIndex p xs < 0 \<longleftrightarrow> (\<forall>x \<in> set xs. \<not> p x)"
proof (induction xs)
  case Nil
  show ?case by simp
next
  case (Cons x xs)
  then show ?case using findIndex_bounds[of p xs] by (auto simp: Let_def)
qed

lemma findIndex_append_found:
  "\<exists>x \<in> set xs. p x \<Longrightarrow> findIndex p (xs @ ys) = findIndex p xs"
  by (induction xs) (auto simp: Let_def findIndex_neg_iff)

lemma findIndex_append_notfound:
  "\<forall>x \<in> set xs. \<not> p x \<Longrightarrow>
     findIndex p (xs @ ys) = (if findIndex p ys < 0 then - 1 else int (length xs) + findIndex p ys)"
  using findIndex_bounds[of p ys] by (induction xs) (auto simp: Let_def)

lemma find_snoc:
  "List.find P (xs @ [x]) = (case List.find P xs of Some y \<Rightarrow> Some y | None \<Rightarrow> if P x then Some x else None)"
  by (induction xs) auto

lemma dedupeByType_snoc:
  "dedupeByType (cs @ [c]) =
     dedupeByType cs @ (if \<exists>d \<in> set cs. sig_type (snd d) = sig_type (snd c) then [] else [c])"
proof -
  let ?same = "\<lambda>sg s. sig_type (snd s) = sig_type (snd (sg::Candidate))"
  have old: "filter (\<lambda>(idx, sg). findIndex (?same sg) (cs @ [c]) = int idx) (enumerate 0 cs)
           = filter (\<lambda>(idx, sg). findIndex (?same sg) cs = int idx) (enumerate 0 cs)"
  proof (rule filter_cong[OF refl])
    fix e assume "e \<in> set (enumerate 0 cs)"
    then have "snd e \<in> set cs" by (metis enumerate_eq_zip set_zip_rightD prod.collapse)
    then have "findIndex (?same (snd e)) (cs @ [c]) = findIndex (?same (snd e)) cs"
      by (intro findIndex_append_found) auto
    then show "(case e of (idx, sg) \<Rightarrow> findIndex (?same sg) (cs @ [c]) = int idx)
             = (case e of (idx, sg) \<Rightarrow> findIndex (?same sg) cs = int idx)"
      by (cases e) simp
  qed
  have last: "findIndex (?same c) (cs @ [c]) = int (length cs) \<longleftrightarrow> \<not> (\<exists>d \<in> set cs. ?same c d)"
  proof (cases "\<exists>d \<in> set cs. ?same c d")
    case True
    then have "findIndex (?same c) (cs @ [c]) = findIndex (?same c) cs"
      by (rule findIndex_append_found)
    with True show ?thesis using findIndex_bounds[of "?same c" cs] by simp
  next
    case False
    then show ?thesis by (simp add: findIndex_append_notfound)
  qed
  show ?thesis
    using old last by (auto simp: dedupeByType_def enumerate_append_eq)
qed

lemma dedupeByType_Nil: "dedupeByType [] = []"
  by (simp add: dedupeByType_def)

lemma dedupeByType_filter_type:
  "filter (\<lambda>c. sig_type (snd c) = T) (dedupeByType cs) =
     (case List.find (\<lambda>c. sig_type (snd c) = T) cs of None \<Rightarrow> [] | Some c \<Rightarrow> [c])"
proof (induction cs rule: rev_induct)
  case Nil
  show ?case by (simp add: dedupeByType_Nil)
next
  case (snoc c cs)
  let ?P = "\<lambda>c::Candidate. sig_type (snd c) = T"
  show ?case
  proof (cases "List.find ?P cs")
    case None
    then have no: "\<forall>d \<in> set cs. \<not> ?P d" unfolding find_None_iff by blast
    show ?thesis
    proof (cases "?P c")
      case True
      with no have "\<not> (\<exists>d \<in> set cs. sig_type (snd d) = sig_type (snd c))" by metis
      then show ?thesis using snoc.IH None True by (simp add: dedupeByType_snoc find_snoc)
    next
      case False
      then show ?thesis using snoc.IH None by (simp add: dedupeByType_snoc find_snoc)
    qed
  next
    case (Some d)
    then have d: "d \<in> set cs" "?P d" unfolding find_Some_iff by (metis nth_mem)+
    show ?thesis
    proof (cases "?P c")
      case True
      with d have "\<exists>d \<in> set cs. sig_type (snd d) = sig_type (snd c)" by metis
      then show ?thesis using snoc.IH Some by (simp add: dedupeByType_snoc find_snoc)
    next
      case False
      then show ?thesis using snoc.IH Some by (simp add: dedupeByType_snoc find_snoc)
    qed
  qed
qed

lemma dedupeByType_subset: "set (dedupeByType cs) \<subseteq> set cs"
  by (induction cs rule: rev_induct) (auto simp: dedupeByType_Nil dedupeByType_snoc)

lemma dedupeByType_types: "(\<lambda>c. sig_type (snd c)) ` set (dedupeByType cs) = (\<lambda>c. sig_type (snd c)) ` set cs"
  by (induction cs rule: rev_induct) (force simp: dedupeByType_Nil dedupeByType_snoc)+

lemma dedupeByType_distinct: "distinct (map (\<lambda>c. sig_type (snd c)) (dedupeByType cs))"
proof (induction cs rule: rev_induct)
  case Nil
  show ?case by (simp add: dedupeByType_Nil)
next
  case (snoc c cs)
  then show ?case using dedupeByType_types[of cs]
    by (auto simp: dedupeByType_snoc)
qed

lemma dedupeByType_first:
  assumes "c \<in> set (dedupeByType cs)"
  shows "List.find (\<lambda>d. sig_type (snd d) = sig_type (snd c)) cs = Some c"
proof -
  from assms have "c \<in> set (filter (\<lambda>d. sig_type (snd d) = sig_type (snd c)) (dedupeByType cs))"
    by simp
  then have "c \<in> set (case List.find (\<lambda>d. sig_type (snd d) = sig_type (snd c)) cs of
                          None \<Rightarrow> [] | Some c \<Rightarrow> [c])"
    by (simp only: dedupeByType_filter_type)
  then show ?thesis
    by (cases "List.find (\<lambda>d. sig_type (snd d) = sig_type (snd c)) cs") auto
qed

lemma candidatesOf_marks:
  "marks now st (candidatesOf events predictions markets now st)
     (snd (analyzeCorrelations events predictions markets now st))"
proof (cases "previousSnapshot st")
  case None
  then show ?thesis
    by (simp add: candidatesOf_def analyzeCorrelations_def marks_snapshot marks_refl)
next
  case (Some prevSnap)
  obtain cands st' where
    c: "collectSignals events predictions markets now prevSnap st = (cands, st')"
       "marks now st cands st'"
    using collectSignals_summary[of events now prevSnap st predictions markets] by blast
  show ?thesis using Some c by (simp add: candidatesOf_def analyzeCorrelations_def)
qed

lemma candidatesOf_ok: "c \<in> set (candidatesOf events predictions markets now st) \<Longrightarrow> candidateOK c"
proof (cases "previousSnapshot st")
  case None
  assume "c \<in> set (candidatesOf events predictions markets now st)"
  with None show ?thesis by (simp add: candidatesOf_def)
next
  case (Some prevSnap)
  assume a: "c \<in> set (candidatesOf events predictions markets now st)"
  obtain cands st' where
    c: "collectSignals events predictions markets now prevSnap st = (cands, st')"
       "\<forall>c \<in> set cands. candidateOK c"
    using collectSignals_summary[of events now prevSnap st predictions markets] by blast
  show ?thesis using Some c a by (simp add: candidatesOf_def)
qed

lemma analyzeCorrelations_output:
  "fst (analyzeCorrelations events predictions markets now st) =
     map snd (dedupeByType (candidatesOf events predictions markets now st))"
proof (cases "previousSnapshot st")
  case None
  then show ?thesis by (simp add: candidatesOf_def analyzeCorrelations_def dedupeByType_Nil)
next
  case (Some prevSnap)
  let ?cs = "candidatesOf events predictions markets now st"
  have "\<forall>s \<in> set (map snd (dedupeByType ?cs)). 0.6 \<le> confidence s"
    using dedupeByType_subset[of ?cs] candidatesOf_ok[of _ events predictions markets now st]
    by (auto simp: candidateOK_def)
  then have f: "filter (\<lambda>s. 0.6 \<le> confidence s) (map snd (dedupeByType ?cs)) = map snd (dedupeByType ?cs)"
    by (simp only: filter_True)
  obtain cands st' where c: "collectSignals events predictions markets now prevSnap st = (cands, st')"
    by (cases "collectSignals events predictions markets now prevSnap st") blast
  show ?thesis using Some c f
    by (simp add: candidatesOf_def analyzeCorrelations_def)
qed

section \<open>Candidates that are certain to be generated\<close>

lemma marks_keys_mono:
  "marks now st new st' \<Longrightarrow> k \<in> set (recentSignalKeys st) \<Longrightarrow> k \<in> set (recentSignalKeys st')"
  by (simp add: marks_def)

lemma foldl_keys_mono:
  assumes "stepLike now f" and "k \<in> set (recentSignalKeys (snd acc))"
  shows "k \<in> set (recentSignalKeys (snd (foldl f acc xs)))"
proof -
  obtain sigs st where acc: "acc = (sigs, st)" by (cases acc)
  from foldl_stepLike[OF assms(1), of sigs st xs] obtain new st' where
    "foldl f (sigs, st) xs = (sigs @ new, st')" "marks now st new st'" by blast
  then show ?thesis using assms(2) acc marks_keys_mono by fastforce
qed

lemma foldl_progress:
  assumes sl: "stepLike now f" and x: "x \<in> set xs"
    and step: "\<And>sigs st. k \<in> set (recentSignalKeys (snd (f (sigs, st) x)))"
  shows "k \<in> set (recentSignalKeys (snd (foldl f acc xs)))"
proof -
  from x obtain ys zs where xs: "xs = ys @ x # zs" by (auto dest: split_list)
  obtain sigs st where a: "foldl f acc ys = (sigs, st)" by (cases "foldl f acc ys")
  have "k \<in> set (recentSignalKeys (snd (f (sigs, st) x)))" by (rule step)
  then have "k \<in> set (recentSignalKeys (snd (foldl f (f (sigs, st) x) zs)))"
    by (rule foldl_keys_mono[OF sl])
  then show ?thesis by (simp add: xs a)
qed

lemma predictionStep_progress:
  assumes "mapGet (predictionChanges prevSnap) (slice0 50 (pm_title p)) = Some old"
    and "PREDICTION_SHIFT_THRESHOLD \<le> \<bar>yesPrice p - old\<bar>"
    and "newsActivityOf newsTopics (findRelatedTopics (pm_title p)) < NEWS_VELOCITY_THRESHOLD"
  shows "generateDedupeKey prediction_leads_news (slice0 50 (pm_title p)) \<bar>yesPrice p - old\<bar>
           \<in> set (recentSignalKeys (snd (predictionStep prevSnap newsTopics now (sigs, st) p)))"
  using assms
  by (simp add: predictionStep_def Let_def isRecentDuplicate_def markSignalSeen_def
        generateSignalId_def setAdd_def)

lemma candidate_of_new_key:
  assumes "marks now st cands st'" and "k \<in> set (recentSignalKeys st')"
    and "k \<notin> set (recentSignalKeys st)"
  shows "k \<in> fst ` set cands"
  using assms by (auto simp: marks_def)

lemma prediction_candidate_generated:
  assumes prev: "previousSnapshot st = Some prevSnap"
    and old: "mapGet (predictionChanges prevSnap) (slice0 50 (pm_title p)) = Some old"
    and p: "p \<in> set predictions"
    and shift: "PREDICTION_SHIFT_THRESHOLD \<le> \<bar>yesPrice p - old\<bar>"
    and quiet: "newsActivityOf (extractTopics events) (findRelatedTopics (pm_title p)) < NEWS_VELOCITY_THRESHOLD"
    and fresh: "\<not> isRecentDuplicate
                  (generateDedupeKey prediction_leads_news (slice0 50 (pm_title p)) \<bar>yesPrice p - old\<bar>) st"
  shows "generateDedupeKey prediction_leads_news (slice0 50 (pm_title p)) \<bar>yesPrice p - old\<bar>
           \<in> fst ` set (candidatesOf events predictions markets now st)"
proof -
  let ?k = "generateDedupeKey prediction_leads_news (slice0 50 (pm_title p)) \<bar>yesPrice p - old\<bar>"
  let ?nt = "extractTopics events"
  obtain s1 st3 cands st6 where
    loops: "foldl (divergenceStep ?nt now)
       (foldl (velocityStep prevSnap now)
          (foldl (predictionStep prevSnap ?nt now) ([], st) predictions) ?nt) markets = (s1, st3)"
    and coll: "collectSignals events predictions markets now prevSnap st = (cands, st6)"
    and m3: "marks now st s1 st3" and m6: "marks now st cands st6"
    and sub: "set s1 \<subseteq> set cands"
    using collectSignals_summary[of events now prevSnap st predictions markets] by fastforce
  have "?k \<in> set (recentSignalKeys (snd (foldl (predictionStep prevSnap ?nt now) ([], st) predictions)))"
    by (rule foldl_progress[OF predictionStep_stepLike p])
       (rule predictionStep_progress[OF old shift quiet])
  then have "?k \<in> set (recentSignalKeys (snd (foldl (velocityStep prevSnap now)
          (foldl (predictionStep prevSnap ?nt now) ([], st) predictions) ?nt)))"
    by (rule foldl_keys_mono[OF velocityStep_stepLike])
  then have "?k \<in> set (recentSignalKeys (snd (foldl (divergenceStep ?nt now)
       (foldl (velocityStep prevSnap now)
          (foldl (predictionStep prevSnap ?nt now) ([], st) predictions) ?nt) markets)))"
    by (rule foldl_keys_mono[OF divergenceStep_stepLike])
  then have "?k \<in> set (recentSignalKeys st3)" by (simp add: loops)
  then have "?k \<in> fst ` set s1"
    using candidate_of_new_key[OF m3] fresh by (simp add: isRecentDuplicate_def)
  then show ?thesis using sub prev coll by (auto simp: candidatesOf_def)
qed

text \<open>If some candidate of a type exists, exactly one signal of that type is returned.\<close>

lemma one_signal_of_type:
  assumes "k \<in> fst ` set (candidatesOf events predictions markets now st)" and "fst k = T"
  shows "\<exists>c. List.find (\<lambda>c. sig_type (snd c) = T) (candidatesOf events predictions markets now st) = Some c
           \<and> c \<in> set (candidatesOf events predictions markets now st)
           \<and> sig_type (snd c) = T
           \<and> filter (\<lambda>s. sig_type s = T) (fst (analyzeCorrelations events predictions markets now st)) = [snd c]"
proof -
  let ?cs = "candidatesOf events predictions markets now st"
  from assms obtain s where ks: "(k, s) \<in> set ?cs" by auto
  then have "candidateOK (k, s)" by (rule candidatesOf_ok)
  then have "sig_type (snd (k, s)) = T" using assms(2) by (simp add: candidateOK_def)
  with ks have "List.find (\<lambda>c. sig_type (snd c) = T) ?cs \<noteq> None"
    unfolding find_None_iff by blast
  then obtain c where c: "List.find (\<lambda>c. sig_type (snd c) = T) ?cs = Some c" by blast
  then have c_in: "c \<in> set ?cs" and c_ty: "sig_type (snd c) = T"
    unfolding find_Some_iff by (metis nth_mem)+
  have "filter (\<lambda>s. sig_type s = T) (map snd (dedupeByType ?cs))
          = map snd (filter (\<lambda>c. sig_type (snd c) = T) (dedupeByType ?cs))"
    by (simp add: filter_map comp_def)
  also have "\<dots> = [snd c]" by (simp add: dedupeByType_filter_type c)
  finally show ?thesis using c c_in c_ty by (auto simp: analyzeCorrelations_output)
qed

section \<open>Source categories of recent items\<close>

lemma setAdd_fold_set:
  "set (foldl (\<lambda>s x. setAdd (f x) s) acc xs) = set acc \<union> f ` set xs"
  by (induction xs arbitrary: acc) (auto simp: setAdd_def)

lemma setAdd_fold_distinct:
  "distinct acc \<Longrightarrow> distinct (foldl (\<lambda>s x. setAdd (f x) s) acc xs)"
  by (induction xs arbitrary: acc) (auto simp: setAdd_def)

lemma sourceTypesOf_set: "set (sourceTypesOf items) = (\<lambda>item. getSourceType (source item)) ` set items"
  by (simp add: sourceTypesOf_def setAdd_fold_set)

lemma sourceTypesOf_distinct: "distinct (sourceTypesOf items)"
  by (simp add: sourceTypesOf_def setAdd_fold_distinct)

lemma sourceTypesOf_named:
  "length (filter (\<lambda>t. t \<noteq> other) (sourceTypesOf items)) =
     card ((\<lambda>item. getSourceType (source item)) ` set items - {other})"
proof -
  have "distinct (filter (\<lambda>t. t \<noteq> other) (sourceTypesOf items))"
    using sourceTypesOf_distinct by (rule distinct_filter)
  then have "length (filter (\<lambda>t. t \<noteq> other) (sourceTypesOf items))
               = card (set (filter (\<lambda>t. t \<noteq> other) (sourceTypesOf items)))"
    by (rule distinct_card[symmetric])
  also have "set (filter (\<lambda>t. t \<noteq> other) (sourceTypesOf items))
               = (\<lambda>item. getSourceType (source item)) ` set items - {other}"
    by (auto simp: sourceTypesOf_set)
  finally show ?thesis .
qed

lemma convergenceStep_progress:
  assumes "3 \<le> length (recentItemsOf now e)"
    and "3 \<le> length (filter (\<lambda>t. t \<noteq> other) (sourceTypesOf (recentItemsOf now e)))"
  shows "generateDedupeKey convergence (ev_id e) (of_nat (length (sourceTypesOf (recentItemsOf now e))))
           \<in> set (recentSignalKeys (snd (convergenceStep now (sigs, st) e)))"
proof -
  have "length (recentItemsOf now e) \<le> length (allItems e)"
    by (simp add: recentItemsOf_def)
  with assms(1) have a: "\<not> length (allItems e) < 3" by linarith
  have "length (filter (\<lambda>t. t \<noteq> other) (sourceTypesOf (recentItemsOf now e)))
          \<le> length (sourceTypesOf (recentItemsOf now e))"
    by simp
  with assms(2) have b: "3 \<le> length (sourceTypesOf (recentItemsOf now e))" by linarith
  show ?thesis using assms a b
    by (simp add: convergenceStep_def Let_def isRecentDuplicate_def markSignalSeen_def
          generateSignalId_def setAdd_def)
qed

section \<open>The set of recent keys and its timers\<close>

lemma removeAll_fold_set:
  "set (foldl (\<lambda>keys (d, k). removeAll k keys) keys due) = set keys - snd ` set due"
  by (induction due arbitrary: keys) (auto simp: image_iff)

lemma runTimers_keys:
  "set (recentSignalKeys (runTimers t st)) =
     set (recentSignalKeys st) - snd ` {x \<in> set (timers st). fst x \<le> t}"
proof -
  have "{x \<in> set (timers st). fst x \<le> t} = set (filter (\<lambda>(d, k). d \<le> t) (timers st))"
    by auto
  then show ?thesis by (simp add: runTimers_def Let_def removeAll_fold_set)
qed

lemma runTimers_timers:
  "timers (runTimers t st) = filter (\<lambda>(d, k). \<not> d \<le> t) (timers st)"
  by (simp add: runTimers_def Let_def)

lemma timersConsistent_initial: "timersConsistent initialState"
  by (simp add: timersConsistent_def initialState_def)

lemma timersConsistent_marks:
  assumes "timersConsistent st" and "marks now st new st'"
  shows "timersConsistent st'"
proof -
  from assms have d1: "distinct (map snd (timers st))" and sub: "snd ` set (timers st) \<subseteq> set (recentSignalKeys st)"
    by (simp_all add: timersConsistent_def)
  from assms(2) have d2: "distinct (map fst new)"
    and fresh: "\<forall>c \<in> set new. fst c \<notin> set (recentSignalKeys st)"
    and keys: "recentSignalKeys st' = recentSignalKeys st @ map fst new"
    and tm: "timers st' = timers st @ map (\<lambda>c. (now + 30 * 60 * 1000, fst c)) new"
    by (simp_all add: marks_def)
  have m: "map snd (timers st') = map snd (timers st) @ map fst new"
    by (simp add: tm comp_def)
  have "set (map snd (timers st)) \<inter> set (map fst new) = {}"
    using sub fresh by fastforce
  with d1 d2 have "distinct (map snd (timers st'))" by (simp add: m)
  moreover have "snd ` set (timers st') \<subseteq> set (recentSignalKeys st')"
    using sub by (force simp: tm keys)
  ultimately show ?thesis by (simp add: timersConsistent_def)
qed

lemma timersConsistent_analyzeCorrelations:
  "timersConsistent st \<Longrightarrow>
     timersConsistent (snd (analyzeCorrelations events predictions markets now st))"
  using candidatesOf_marks timersConsistent_marks by blast

lemma timersConsistent_runTimers:
  assumes "timersConsistent st"
  shows "timersConsistent (runTimers t st)"
proof -
  from assms have d: "distinct (map snd (timers st))" and sub: "snd ` set (timers st) \<subseteq> set (recentSignalKeys st)"
    by (simp_all add: timersConsistent_def)
  have d': "distinct (map snd (timers (runTimers t st)))"
    using d by (simp add: runTimers_timers distinct_map_filter)
  have "snd ` set (timers (runTimers t st)) \<subseteq> set (recentSignalKeys (runTimers t st))"
  proof
    fix k assume "k \<in> snd ` set (timers (runTimers t st))"
    then obtain d0 where p: "(d0, k) \<in> set (timers st)" "\<not> d0 \<le> t"
      by (auto simp: runTimers_timers)
    then have "k \<in> set (recentSignalKeys st)" using sub by force
    moreover have "k \<notin> snd ` {x \<in> set (timers st). fst x \<le> t}"
    proof
      assume "k \<in> snd ` {x \<in> set (timers st). fst x \<le> t}"
      then obtain d1 where q: "(d1, k) \<in> set (timers st)" "d1 \<le> t" by auto
      from d have "inj_on snd (set (timers st))" by (simp add: distinct_map)
      with p(1) q(1) have "(d0, k) = (d1, k)" by (metis inj_onD snd_conv)
      with p(2) q(2) show False by simp
    qed
    ultimately show "k \<in> set (recentSignalKeys (runTimers t st))" by (simp add: runTimers_keys)
  qed
  with d' show ?thesis by (simp add: timersConsistent_def)
qed

lemma marked_key_survives:
  assumes cons: "timersConsistent st" and m: "marks now st new st'"
    and k: "k \<in> fst ` set new" and t: "t < now + 30 * 60 * 1000"
  shows "k \<in> set (recentSignalKeys (runTimers t st'))"
proof -
  from cons have sub: "snd ` set (timers st) \<subseteq> set (recentSignalKeys st)"
    by (simp add: timersConsistent_def)
  from m have fresh: "\<forall>c \<in> set new. fst c \<notin> set (recentSignalKeys st)"
    and keys: "recentSignalKeys st' = recentSignalKeys st @ map fst new"
    and tm: "timers st' = timers st @ map (\<lambda>c. (now + 30 * 60 * 1000, fst c)) new"
    by (simp_all add: marks_def)
  from k fresh have notold: "k \<notin> set (recentSignalKeys st)" by auto
  have "k \<in> set (recentSignalKeys st')" using k by (simp add: keys)
  moreover have "k \<notin> snd ` {x \<in> set (timers st'). fst x \<le> t}"
  proof
    assume "k \<in> snd ` {x \<in> set (timers st'). fst x \<le> t}"
    then obtain d where q: "(d, k) \<in> set (timers st')" "d \<le> t" by auto
    from q(1) have "(d, k) \<in> set (timers st) \<or> d = now + 30 * 60 * 1000" by (auto simp: tm)
    then show False
    proof
      assume "(d, k) \<in> set (timers st)"
      then have "k \<in> set (recentSignalKeys st)" using sub by force
      with notold show False by simp
    next
      assume "d = now + 30 * 60 * 1000"
      with q(2) t show False by simp
    qed
  qed
  ultimately show ?thesis by (simp add: runTimers_keys)
qed

lemma no_candidate_for_seen_key:
  assumes "isRecentDuplicate k st"
  shows "k \<notin> fst ` set (candidatesOf events predictions markets now st)"
  using candidatesOf_marks[of now st events predictions markets] assms
  by (auto simp: marks_def isRecentDuplicate_def)



lemma output_subset_candidates:
  "set (fst (analyzeCorrelations events predictions markets now st))
     \<subseteq> snd ` set (candidatesOf events predictions markets now st)"
  using dedupeByType_subset[of "candidatesOf events predictions markets now st"]
  by (auto simp: analyzeCorrelations_output)

section \<open>The prediction-market scenario, evaluated\<close>

lemma floor_numeral_div: "\<lfloor>numeral a / numeral b :: rat\<rfloor> = numeral a div numeral b"
  by (metis floor_divide_of_int_eq of_int_numeral)

lemma fedMarket_sel:
  "pm_title (fedMarket x) = ''Will the Fed cut rates in March''" "yesPrice (fedMarket x) = x"
  by (simp_all add: fedMarket_def)

lemma fed_lower: "toLowerCase ''Will the Fed cut rates in March'' = ''will the fed cut rates in march''"
  by (simp add: toLowerCase_def toLowerChar_def)

lemma fed_related:
  "findRelatedTopics ''Will the Fed cut rates in March'' = [''fed'', ''interest'', ''inflation'', ''recession'']"
  by (simp add: findRelatedTopics_def fed_lower TOPIC_MAPPINGS_def newSet_def setAdd_def)

lemma fed_slice: "slice0 50 ''Will the Fed cut rates in March'' = ''Will the Fed cut rates in March''"
  by (simp add: slice0_def)

lemma fed_key:
  "generateDedupeKey prediction_leads_news ''Will the Fed cut rates in March'' 7 =
     (prediction_leads_news, ''Will the Fed cut rates in March'', 7)"
  by (simp add: generateDedupeKey_def Math_round_def floor_numeral_div)

lemma fed_call1:
  "analyzeCorrelations [] [fedMarket x] [] 0 initialState =
     ([], \<lparr>previousSnapshot =
             Some \<lparr>newsVelocity = [], marketChanges = [],
                   predictionChanges = [(''Will the Fed cut rates in March'', x)],
                   snap_timestamp = 0\<rparr>,
           recentSignalKeys = [], timers = [], randomDraws = 0\<rparr>)"
  by (simp add: analyzeCorrelations_def initialState_def currentSnapshot_def extractTopics_def
        newMap_def fedMarket_def fed_slice)

lemma fed_call2:
  "fst (analyzeCorrelations [] [fedMarket 47] [] 300000
          (snd (analyzeCorrelations [] [fedMarket 40] [] 0 initialState))) = [fedSignal]"
  by (simp add: fed_call1)
     (simp add: Let_def analyzeCorrelations_def collectSignals_def currentSnapshot_def
        extractTopics_def newMap_def fedMarket_def fed_slice predictionStep_def mapGet_def
        PREDICTION_SHIFT_THRESHOLD_def NEWS_VELOCITY_THRESHOLD_def fed_related fed_key
        newsActivityOf_def isRecentDuplicate_def markSignalSeen_def generateSignalId_def setAdd_def
        detectConvergence_def detectTriangulation_def dedupeByType_def fedSignal_def slice0_def)

section \<open>The convergence scenarios, evaluated\<close>

lemma summit_lower: "toLowerCase ''Summit talks open'' = ''summit talks open''"
  by (simp add: toLowerCase_def toLowerChar_def)

lemma summit_no_topic: "filter (str_includes ''summit talks open'') TOPIC_KEYWORDS = []"
  by (simp add: TOPIC_KEYWORDS_def)

lemma foldl_if_never:
  "\<forall>x \<in> set xs. \<not> P x \<Longrightarrow> foldl (\<lambda>t x. if P x then g t x else t) t xs = t"
  by (induction xs) auto

lemma extractTopics_none:
  assumes "\<forall>e \<in> set events. filter (str_includes (toLowerCase (primaryTitle e))) TOPIC_KEYWORDS = []"
  shows "extractTopics events = []"
proof -
  have inner: "foldl (\<lambda>topics kw.
           if str_includes (toLowerCase (primaryTitle e)) kw then
             let v = (case velocity e of Some m \<Rightarrow> sourcesPerHour m | None \<Rightarrow> 0) in
             mapSet kw ((case mapGet topics kw of Some x \<Rightarrow> x | None \<Rightarrow> 0) + v + sourceCount e) topics
           else topics) t TOPIC_KEYWORDS = t" if "e \<in> set events" for e and t :: "(string, number) jsmap"
  proof (rule foldl_if_never)
    from assms that have "filter (str_includes (toLowerCase (primaryTitle e))) TOPIC_KEYWORDS = []"
      by blast
    then show "\<forall>x \<in> set TOPIC_KEYWORDS. \<not> str_includes (toLowerCase (primaryTitle e)) x"
      by (simp add: filter_empty_conv)
  qed
  have "foldl (\<lambda>topics event.
        let title = toLowerCase (primaryTitle event) in
        foldl (\<lambda>topics kw.
           if str_includes title kw then
             let v = (case velocity event of Some m \<Rightarrow> sourcesPerHour m | None \<Rightarrow> 0) in
             mapSet kw ((case mapGet topics kw of Some x \<Rightarrow> x | None \<Rightarrow> 0) + v + sourceCount event) topics
           else topics) topics TOPIC_KEYWORDS) t evs = t" if "set evs \<subseteq> set events" for evs and t :: "(string, number) jsmap"
    using that
  proof (induction evs arbitrary: t)
    case Nil
    show ?case by simp
  next
    case (Cons e evs)
    then have "e \<in> set events" by simp
    from inner[OF this] Cons show ?case by (simp add: Let_def)
  qed
  then show ?thesis by (simp add: extractTopics_def)
qed

lemma summit_topics:
  "extractTopics [summitCluster i srcs] = []"
  "extractTopics [summitCluster i srcs, summitCluster j srcs'] = []"
  by (rule extractTopics_none, simp add: summitCluster_def summit_lower summit_no_topic)+

lemma src_types:
  "getSourceType ''Reuters'' = wire" "getSourceType ''White House'' = gov"
  "getSourceType ''Local Blog'' = other" "getSourceType ''BBC World'' = mainstream"
  "getSourceType ''Bellingcat'' = intel" "getSourceType ''AP News'' = wire"
  "getSourceType ''Pentagon'' = gov" "getSourceType ''Al Jazeera'' = mainstream"
  by (simp_all add: getSourceType_def SOURCE_TYPES_def)


lemma emptyCycleState_eq:
  "emptyCycleState =
     \<lparr>previousSnapshot =
        Some \<lparr>newsVelocity = [], marketChanges = [], predictionChanges = [], snap_timestamp = 0\<rparr>,
      recentSignalKeys = [], timers = [], randomDraws = 0\<rparr>"
  by (simp add: emptyCycleState_def analyzeCorrelations_def initialState_def currentSnapshot_def
        extractTopics_def newMap_def)

lemma summit_recent: "recentItemsOf 600000 (summitCluster i srcs) = map summitItem srcs"
  by (simp add: recentItemsOf_def summitCluster_def summitItem_def WINDOW_MS_def)

lemma summitCluster_sel:
  "ev_id (summitCluster i srcs) = i"
  "primaryTitle (summitCluster i srcs) = ''Summit talks open''"
  "sourceCount (summitCluster i srcs) = of_nat (length srcs)"
  "allItems (summitCluster i srcs) = map summitItem srcs"
  by (simp_all add: summitCluster_def)

lemma summitItem_sel:
  "source (summitItem src) = src" "pubDate (summitItem src) = 500000"
  by (simp_all add: summitItem_def)

lemma convergence_other_call:
  "fst (analyzeCorrelations [summitCluster ''c1'' [''Reuters'', ''White House'', ''Local Blog'']] [] []
          600000 emptyCycleState) = []"
  by (simp add: analyzeCorrelations_def emptyCycleState_eq collectSignals_def summit_topics
        detectConvergence_def detectTriangulation_def convergenceStep_def triangulationStep_def
        summitCluster_sel recentItemsOf_def WINDOW_MS_def summitItem_sel sourceTypesOf_def
        src_types setAdd_def Let_def CRITICAL_TYPES_def dedupeByType_def)

section \<open>A third cycle of the prediction-market scenario\<close>

lemma extractTopics_Nil: "extractTopics [] = []"
  by (simp add: extractTopics_def)




section \<open>Two silent markets in one cycle, evaluated\<close>

lemma quietMarket_sel:
  "symbol (quietMarket s c) = s" "md_name (quietMarket s c) = s" "change (quietMarket s c) = Some c"
  by (simp_all add: quietMarket_def)

lemma two_markets_candidates:
  "candidatesOf [] [] [quietMarket ''AAA'' 3, quietMarket ''BBB'' 4] 300000 emptyCycleState =
     [((silent_divergence, ''AAA'', 3),
        \<lparr>sig_id = (300000, 0), sig_type = silent_divergence, sig_title = ''Unexplained Market Move'',
         description = DivergenceDesc ''AAA'' True 3,
         confidence = 7 / 10, timestamp = 300000,
         sig_data = \<lparr>d_newsVelocity = Some 0, d_marketChange = Some 3, d_predictionShift = None,
                     d_relatedTopics = None\<rparr>\<rparr>),
      ((silent_divergence, ''BBB'', 4), secondDivergence)]"
  by (simp add: Let_def candidatesOf_def emptyCycleState_eq collectSignals_def extractTopics_Nil
        divergenceStep_def quietMarket_sel MARKET_MOVE_THRESHOLD_def generateDedupeKey_def
        Math_round_def floor_numeral_div isRecentDuplicate_def markSignalSeen_def
        generateSignalId_def setAdd_def detectConvergence_def detectTriangulation_def
        secondDivergence_def)

lemma two_markets_output:
  "fst (analyzeCorrelations [] [] [quietMarket ''AAA'' 3, quietMarket ''BBB'' 4] 300000 emptyCycleState) =
     [\<lparr>sig_id = (300000, 0), sig_type = silent_divergence, sig_title = ''Unexplained Market Move'',
         description = DivergenceDesc ''AAA'' True 3,
         confidence = 7 / 10, timestamp = 300000,
         sig_data = \<lparr>d_newsVelocity = Some 0, d_marketChange = Some 3, d_predictionShift = None,
                     d_relatedTopics = None\<rparr>\<rparr>]"
  by (simp add: analyzeCorrelations_output two_markets_candidates dedupeByType_def secondDivergence_def)

lemma two_markets_state:
  "snd (analyzeCorrelations [] [] [quietMarket ''AAA'' 3, quietMarket ''BBB'' 4] 300000 emptyCycleState) =
     \<lparr>previousSnapshot =
        Some \<lparr>newsVelocity = [], marketChanges = [(''AAA'', 3), (''BBB'', 4)],
              predictionChanges = [], snap_timestamp = 300000\<rparr>,
      recentSignalKeys = [(silent_divergence, ''AAA'', 3), (silent_divergence, ''BBB'', 4)],
      timers = [(2100000, (silent_divergence, ''AAA'', 3)), (2100000, (silent_divergence, ''BBB'', 4))],
      randomDraws = 2\<rparr>"
  by (simp add: Let_def analyzeCorrelations_def emptyCycleState_eq collectSignals_def extractTopics_Nil
        currentSnapshot_def newMap_def
        divergenceStep_def quietMarket_sel MARKET_MOVE_THRESHOLD_def generateDedupeKey_def
        Math_round_def floor_numeral_div isRecentDuplicate_def markSignalSeen_def
        generateSignalId_def setAdd_def detectConvergence_def detectTriangulation_def)

lemma second_market_later:
  "fst (analyzeCorrelations [] [] [quietMarket ''BBB'' 4] 600000
          (runTimers 600000
             (snd (analyzeCorrelations [] [] [quietMarket ''AAA'' 3, quietMarket ''BBB'' 4]
                     300000 emptyCycleState)))) = []"
  by (simp add: two_markets_state)
     (simp add: Let_def runTimers_def analyzeCorrelations_def collectSignals_def extractTopics_Nil
        divergenceStep_def quietMarket_sel MARKET_MOVE_THRESHOLD_def generateDedupeKey_def
        Math_round_def floor_numeral_div isRecentDuplicate_def
        detectConvergence_def detectTriangulation_def dedupeByType_def)

section \<open>Cold start and the stored snapshot\<close>

lemma previousSnapshot_after_call:
  "previousSnapshot (snd (analyzeCorrelations events predictions markets now st)) =
     Some (currentSnapshot events predictions markets now)"
proof (cases "previousSnapshot st")
  case None
  then show ?thesis by (simp add: analyzeCorrelations_def)
next
  case (Some prevSnap)
  obtain cands st' where
    c: "collectSignals events predictions markets now prevSnap st = (cands, st')"
       "previousSnapshot st' = Some (currentSnapshot events predictions markets now)"
    using collectSignals_summary[of events now prevSnap st predictions markets] by blast
  show ?thesis using Some c by (simp add: analyzeCorrelations_def)
qed

text \<open>
  Claim C7. If no previous snapshot exists, \<open>analyzeCorrelations\<close> returns the empty list
  of signals and stores the snapshot of the current cycle as the previous snapshot, for
  all events, predictions and markets; nothing else of the state changes. The stored
  snapshot holds the topic activity of the events, the change of each market under its
  symbol (0 where the change is missing), the \<open>yesPrice\<close> of each prediction market
  under the first 50 characters of its title, and the time of the call.
\<close>

theorem analyzeCorrelations_cold_start:
  assumes "previousSnapshot st = None"
  shows "analyzeCorrelations events predictions markets now st =
           ([], st\<lparr>previousSnapshot := Some (currentSnapshot events predictions markets now)\<rparr>)
       \<and> previousSnapshot (snd (analyzeCorrelations events predictions markets now st)) =
           Some \<lparr>newsVelocity = extractTopics events,
            marketChanges =
              newMap (map (\<lambda>m. (symbol m, case change m of Some c \<Rightarrow> c | None \<Rightarrow> 0)) markets),
            predictionChanges = newMap (map (\<lambda>p. (slice0 50 (pm_title p), yesPrice p)) predictions),
            snap_timestamp = now\<rparr>"
  using assms by (simp add: analyzeCorrelations_def currentSnapshot_def)

theorem analyzeCorrelations_cold_start_witness:
  "previousSnapshot initialState = None \<and>
   analyzeCorrelations [] [fedMarket 40] [] 0 initialState =
     ([], initialState\<lparr>previousSnapshot := Some (currentSnapshot [] [fedMarket 40] [] 0)\<rparr>) \<and>
   previousSnapshot (snd (analyzeCorrelations [] [fedMarket 40] [] 0 initialState)) =
     Some \<lparr>newsVelocity = [], marketChanges = [],
           predictionChanges = [(''Will the Fed cut rates in March'', 40)],
           snap_timestamp = 0\<rparr>"
  using analyzeCorrelations_cold_start[of initialState "[]" "[fedMarket 40]" "[]" 0]
  by (simp add: initialState_def currentSnapshot_def extractTopics_def newMap_def fedMarket_sel
        fed_slice)

text \<open>
  Claim C8. After every call of \<open>analyzeCorrelations\<close>, whatever the state before and
  however many signals the call returns, the stored previous snapshot is the snapshot built
  from the arguments of that call: the topic activity of its events, the changes of its
  markets, the prices of its prediction markets and its time. Nothing of an earlier
  snapshot is kept.
\<close>

theorem previousSnapshot_replaced:
  "previousSnapshot (snd (analyzeCorrelations events predictions markets now st)) =
     Some (currentSnapshot events predictions markets now)
   \<and> previousSnapshot (snd (analyzeCorrelations events predictions markets now st)) =
     Some \<lparr>newsVelocity = extractTopics events,
      marketChanges =
        newMap (map (\<lambda>m. (symbol m, case change m of Some c \<Rightarrow> c | None \<Rightarrow> 0)) markets),
      predictionChanges = newMap (map (\<lambda>p. (slice0 50 (pm_title p), yesPrice p)) predictions),
      snap_timestamp = now\<rparr>"
proof (cases "previousSnapshot st")
  case None
  then show ?thesis by (simp add: analyzeCorrelations_def currentSnapshot_def)
next
  case (Some prevSnap)
  obtain cands st' where
    c: "collectSignals events predictions markets now prevSnap st = (cands, st')"
       "previousSnapshot st' = Some (currentSnapshot events predictions markets now)"
    using collectSignals_summary[of events now prevSnap st predictions markets] by blast
  show ?thesis using Some c by (simp add: analyzeCorrelations_def currentSnapshot_def)
qed

theorem previousSnapshot_replaced_witness:
  "previousSnapshot
     (snd (analyzeCorrelations [] [fedMarket 47] [] 300000
        (snd (analyzeCorrelations [] [fedMarket 40] [] 0 initialState)))) =
   Some (currentSnapshot [] [fedMarket 47] [] 300000)
   \<and> previousSnapshot
     (snd (analyzeCorrelations [] [fedMarket 47] [] 300000
        (snd (analyzeCorrelations [] [fedMarket 40] [] 0 initialState)))) =
   Some \<lparr>newsVelocity = [], marketChanges = [],
         predictionChanges = [(''Will the Fed cut rates in March'', 47)],
         snap_timestamp = 300000\<rparr>"
  using previousSnapshot_replaced[of "[]" "[fedMarket 47]" "[]" 300000
          "snd (analyzeCorrelations [] [fedMarket 40] [] 0 initialState)"]
  by (simp add: currentSnapshot_def extractTopics_def newMap_def fedMarket_sel fed_slice)

section \<open>Confidence floor and one signal per type\<close>

text \<open>
  Claim C6. For all events, predictions, markets and every state of the detector, every
  signal in the list that \<open>analyzeCorrelations\<close> returns has confidence at least 0.6,
  no two returned signals have the same type, and each returned signal is the first element
  of its type in the array \<open>signals\<close> of candidates generated by the call.
\<close>

theorem output_floor_and_one_per_type:
  "(\<forall>s \<in> set (fst (analyzeCorrelations events predictions markets now st)). confidence s \<ge> 0.6)
   \<and> distinct (map sig_type (fst (analyzeCorrelations events predictions markets now st)))
   \<and> (\<forall>s \<in> set (fst (analyzeCorrelations events predictions markets now st)).
         map_option snd
           (List.find (\<lambda>c. sig_type (snd c) = sig_type s)
              (candidatesOf events predictions markets now st)) = Some s)"
proof -
  let ?cs = "candidatesOf events predictions markets now st"
  let ?out = "fst (analyzeCorrelations events predictions markets now st)"
  have out: "?out = map snd (dedupeByType ?cs)" by (rule analyzeCorrelations_output)
  have floor: "\<forall>s \<in> set ?out. confidence s \<ge> 0.6"
  proof
    fix s assume "s \<in> set ?out"
    then obtain c where c: "c \<in> set (dedupeByType ?cs)" "s = snd c" unfolding out by auto
    then have "c \<in> set ?cs" using dedupeByType_subset by blast
    then have "candidateOK c" by (rule candidatesOf_ok)
    then show "confidence s \<ge> 0.6" using c by (simp add: candidateOK_def)
  qed
  have dist: "distinct (map sig_type ?out)"
    using dedupeByType_distinct[of ?cs] by (simp add: out comp_def)
  have first: "\<forall>s \<in> set ?out.
      map_option snd (List.find (\<lambda>c. sig_type (snd c) = sig_type s) ?cs) = Some s"
  proof
    fix s assume "s \<in> set ?out"
    then obtain c where c: "c \<in> set (dedupeByType ?cs)" "s = snd c" unfolding out by auto
    from dedupeByType_first[OF c(1)] c(2)
    show "map_option snd (List.find (\<lambda>c. sig_type (snd c) = sig_type s) ?cs) = Some s"
      by simp
  qed
  show ?thesis using floor dist first by blast
qed

theorem output_floor_and_one_per_type_witness:
  "fedSignal \<in> set (fst (analyzeCorrelations [] [fedMarket 47] [] 300000
                          (snd (analyzeCorrelations [] [fedMarket 40] [] 0 initialState))))
   \<and> confidence fedSignal \<ge> 0.6
   \<and> distinct (map sig_type (fst (analyzeCorrelations [] [fedMarket 47] [] 300000
                          (snd (analyzeCorrelations [] [fedMarket 40] [] 0 initialState)))))
   \<and> map_option snd
        (List.find (\<lambda>c. sig_type (snd c) = sig_type fedSignal)
           (candidatesOf [] [fedMarket 47] [] 300000
              (snd (analyzeCorrelations [] [fedMarket 40] [] 0 initialState)))) = Some fedSignal"
  using output_floor_and_one_per_type[of "[]" "[fedMarket 47]" "[]" 300000
          "snd (analyzeCorrelations [] [fedMarket 40] [] 0 initialState)"]
  by (simp add: fed_call2)

section \<open>Prediction shifts\<close>

text \<open>
  A stored price is the \<open>yesPrice\<close> of a market of the call that built the snapshot; a
  market whose raw price difference is below the threshold leaves the array and the state
  as they are; and the other four loops push no signal of type \<open>prediction_leads_news\<close>.
\<close>

lemma mapSet_set: "set (mapSet k v m) \<subseteq> insert (k, v) (set m)"
  by (induction m) (auto split: if_splits)

lemma foldl_mapSet_set:
  "set (foldl (\<lambda>m (k, v). mapSet k v m) m pairs) \<subseteq> set m \<union> set pairs"
proof (induction pairs arbitrary: m)
  case Nil
  show ?case by simp
next
  case (Cons p pairs)
  obtain k v where p: "p = (k, v)" by (cases p)
  show ?case using Cons.IH[of "mapSet k v m"] mapSet_set[of k v m] by (auto simp: p)
qed

lemma mapGet_newMap_in: "mapGet (newMap pairs) k = Some v \<Longrightarrow> (k, v) \<in> set pairs"
  using foldl_mapSet_set[of "[]" pairs] by (auto simp: mapGet_def newMap_def dest: map_of_SomeD)

lemma stored_price_of_market:
  assumes "mapGet (predictionChanges (currentSnapshot events predictions markets now)) k = Some v"
  shows "\<exists>p \<in> set predictions. v = yesPrice p"
  using mapGet_newMap_in[of "map (\<lambda>p. (slice0 50 (pm_title p), yesPrice p)) predictions" k v] assms
  by (auto simp: currentSnapshot_def)

lemma predictionStep_below_threshold:
  assumes "\<And>prev. mapGet (predictionChanges prevSnap) (slice0 50 (pm_title pred)) = Some prev
             \<Longrightarrow> \<bar>yesPrice pred - prev\<bar> < PREDICTION_SHIFT_THRESHOLD"
  shows "predictionStep prevSnap newsTopics now acc pred = acc"
  using assms by (cases acc) (auto simp: predictionStep_def Let_def split: option.splits)

lemma foldl_unchanged: "(\<And>x a. x \<in> set xs \<Longrightarrow> f a x = a) \<Longrightarrow> foldl f acc xs = acc"
  by (induction xs arbitrary: acc) simp_all

lemma foldl_other_types:
  assumes "\<And>a x. \<forall>c \<in> set (fst (f a x)). c \<in> set (fst a) \<or> P c"
  shows "\<forall>c \<in> set (fst (foldl f acc xs)). c \<in> set (fst acc) \<or> P c"
proof (induction xs arbitrary: acc)
  case Nil
  show ?case by simp
next
  case (Cons x xs)
  show ?case using Cons.IH[of "f acc x"] assms[of acc x] by auto
qed

lemma velocityStep_type:
  "\<forall>c \<in> set (fst (velocityStep prevSnap now a x)). c \<in> set (fst a) \<or> sig_type (snd c) \<noteq> prediction_leads_news"
  by (cases a) (auto simp: velocityStep_def Let_def generateSignalId_def split: option.splits prod.splits if_splits)

lemma divergenceStep_type:
  "\<forall>c \<in> set (fst (divergenceStep newsTopics now a x)). c \<in> set (fst a) \<or> sig_type (snd c) \<noteq> prediction_leads_news"
  by (cases a) (auto simp: divergenceStep_def Let_def generateSignalId_def split: option.splits prod.splits if_splits)

lemma convergenceStep_type:
  "\<forall>c \<in> set (fst (convergenceStep now a x)). c \<in> set (fst a) \<or> sig_type (snd c) \<noteq> prediction_leads_news"
  by (cases a) (auto simp: convergenceStep_def Let_def generateSignalId_def split: option.splits prod.splits if_splits)

lemma triangulationStep_type:
  "\<forall>c \<in> set (fst (triangulationStep now a x)). c \<in> set (fst a) \<or> sig_type (snd c) \<noteq> prediction_leads_news"
  by (cases a) (auto simp: triangulationStep_def Let_def generateSignalId_def split: option.splits prod.splits if_splits)

lemma collectSignals_no_prediction:
  assumes "\<And>pred prev. pred \<in> set predictions \<Longrightarrow>
             mapGet (predictionChanges prevSnap) (slice0 50 (pm_title pred)) = Some prev
             \<Longrightarrow> \<bar>yesPrice pred - prev\<bar> < PREDICTION_SHIFT_THRESHOLD"
  shows "\<forall>c \<in> set (fst (collectSignals events predictions markets now prevSnap st)).
           sig_type (snd c) \<noteq> prediction_leads_news"
proof -
  let ?nt = "extractTopics events"
  have a1: "foldl (predictionStep prevSnap ?nt now) ([], st) predictions = ([], st)"
    using assms by (intro foldl_unchanged predictionStep_below_threshold) blast
  obtain s1 st3 conv st5 tri st6 where
    s: "foldl (divergenceStep ?nt now)
          (foldl (velocityStep prevSnap now)
             (foldl (predictionStep prevSnap ?nt now) ([], st) predictions) ?nt) markets = (s1, st3)"
       "detectConvergence events now
          (st3\<lparr>previousSnapshot := Some (currentSnapshot events predictions markets now)\<rparr>) = (conv, st5)"
       "detectTriangulation events now st5 = (tri, st6)"
       "collectSignals events predictions markets now prevSnap st = (s1 @ conv @ tri, st6)"
    using collectSignals_summary[of events now prevSnap st predictions markets] by blast
  have "\<forall>c \<in> set (fst (foldl (velocityStep prevSnap now) ([], st) ?nt)).
          sig_type (snd c) \<noteq> prediction_leads_news"
    using foldl_other_types[of "velocityStep prevSnap now" "\<lambda>c. sig_type (snd c) \<noteq> prediction_leads_news"
            "([], st)" ?nt, OF velocityStep_type] by simp
  then have "\<forall>c \<in> set s1. sig_type (snd c) \<noteq> prediction_leads_news"
    using foldl_other_types[of "divergenceStep ?nt now" "\<lambda>c. sig_type (snd c) \<noteq> prediction_leads_news"
            "foldl (velocityStep prevSnap now) ([], st) ?nt" markets, OF divergenceStep_type]
      s(1) a1 by auto
  moreover have "\<forall>c \<in> set conv. sig_type (snd c) \<noteq> prediction_leads_news"
    using foldl_other_types[of "convergenceStep now" "\<lambda>c. sig_type (snd c) \<noteq> prediction_leads_news"
            "([], st3\<lparr>previousSnapshot := Some (currentSnapshot events predictions markets now)\<rparr>)" events,
            OF convergenceStep_type] s(2)
    by (simp add: detectConvergence_def)
  moreover have "\<forall>c \<in> set tri. sig_type (snd c) \<noteq> prediction_leads_news"
    using foldl_other_types[of "triangulationStep now" "\<lambda>c. sig_type (snd c) \<noteq> prediction_leads_news"
            "([], st5)" events, OF triangulationStep_type] s(3)
    by (simp add: detectTriangulation_def)
  ultimately show ?thesis using s(4) by auto
qed

lemma fed_fraction_call2:
  "fst (analyzeCorrelations [] [fedMarket 0.47] [] 300000
          (snd (analyzeCorrelations [] [fedMarket 0.40] [] 0 initialState))) = []"
  by (simp add: fed_call1)
     (simp add: Let_def analyzeCorrelations_def collectSignals_def currentSnapshot_def
        extractTopics_def newMap_def fedMarket_def fed_slice predictionStep_def mapGet_def
        PREDICTION_SHIFT_THRESHOLD_def detectConvergence_def detectTriangulation_def
        dedupeByType_def)

text \<open>
  Claim C1. The scenario of the claim gives \<open>yesPrice\<close> as a probability, the market
  moving from 0.40 to 0.47, and expects exactly one signal of type
  \<open>prediction_leads_news\<close> with a confidence between 0.5 and 0.9. The detector compares
  the raw difference \<open>Math.abs(pred.yesPrice - prev)\<close> with the threshold 5 and prints it
  as a percentage, while the caller of \<open>analyzeCorrelations\<close> passes the same
  \<open>yesPrice\<close> that it shows as \<open>(p.yesPrice * 100).toFixed(0)\<close> per cent and
  complements as \<open>1 - p.yesPrice\<close>. The code therefore does not do what the claim
  says: for every pair of consecutive cycles whose prediction prices are probabilities
  (between 0 and 1), the second cycle pushes no candidate of type
  \<open>prediction_leads_news\<close> and returns no signal of that type, whatever the events, the
  markets, the clock and the keys seen before. At the prices of the claim the call returns
  the empty list.
\<close>

theorem prediction_shift_silent_on_probabilities:
  assumes "\<forall>p \<in> set predictions1. 0 \<le> yesPrice p \<and> yesPrice p \<le> 1"
    and "\<forall>p \<in> set predictions2. 0 \<le> yesPrice p \<and> yesPrice p \<le> 1"
    and "previousSnapshot st2 =
           previousSnapshot (snd (analyzeCorrelations events1 predictions1 markets1 now1 st1))"
  shows "filter (\<lambda>c. sig_type (snd c) = prediction_leads_news)
           (candidatesOf events2 predictions2 markets2 now2 st2) = []
       \<and> filter (\<lambda>s. sig_type s = prediction_leads_news)
           (fst (analyzeCorrelations events2 predictions2 markets2 now2 st2)) = []"
proof -
  let ?prev = "currentSnapshot events1 predictions1 markets1 now1"
  have prev: "previousSnapshot st2 = Some ?prev"
    using assms(3) by (simp add: previousSnapshot_after_call)
  have small: "\<bar>yesPrice pred - v\<bar> < PREDICTION_SHIFT_THRESHOLD"
    if inp: "pred \<in> set predictions2"
      and stored: "mapGet (predictionChanges ?prev) (slice0 50 (pm_title pred)) = Some v" for pred v
  proof -
    obtain p where p: "p \<in> set predictions1" "v = yesPrice p"
      using stored_price_of_market[OF stored] by blast
    have "0 \<le> v \<and> v \<le> 1" using assms(1) p by blast
    moreover have "0 \<le> yesPrice pred \<and> yesPrice pred \<le> 1" using assms(2) inp by blast
    ultimately show ?thesis by (simp add: PREDICTION_SHIFT_THRESHOLD_def abs_if)
  qed
  have cands: "\<forall>c \<in> set (candidatesOf events2 predictions2 markets2 now2 st2).
                 sig_type (snd c) \<noteq> prediction_leads_news"
    using collectSignals_no_prediction[of predictions2 ?prev events2 markets2 now2 st2] small prev
    by (simp add: candidatesOf_def)
  then have "\<forall>s \<in> set (fst (analyzeCorrelations events2 predictions2 markets2 now2 st2)).
               sig_type s \<noteq> prediction_leads_news"
    using output_subset_candidates[of events2 predictions2 markets2 now2 st2] by auto
  with cands show ?thesis by (simp add: filter_empty_conv)
qed

theorem prediction_shift_silent_on_probabilities_witness:
  "0 \<le> yesPrice (fedMarket 0.40) \<and> yesPrice (fedMarket 0.40) \<le> 1
   \<and> 0 \<le> yesPrice (fedMarket 0.47) \<and> yesPrice (fedMarket 0.47) \<le> 1
   \<and> mapGet (predictionChanges (currentSnapshot [] [fedMarket 0.40] [] 0))
        (slice0 50 (pm_title (fedMarket 0.47))) = Some 0.40
   \<and> newsActivityOf (extractTopics []) (findRelatedTopics (pm_title (fedMarket 0.47))) = 0
   \<and> filter (\<lambda>c. sig_type (snd c) = prediction_leads_news)
        (candidatesOf [] [fedMarket 0.47] [] 300000
           (snd (analyzeCorrelations [] [fedMarket 0.40] [] 0 initialState))) = []
   \<and> filter (\<lambda>s. sig_type s = prediction_leads_news)
        (fst (analyzeCorrelations [] [fedMarket 0.47] [] 300000
           (snd (analyzeCorrelations [] [fedMarket 0.40] [] 0 initialState)))) = []
   \<and> fst (analyzeCorrelations [] [fedMarket 0.47] [] 300000
           (snd (analyzeCorrelations [] [fedMarket 0.40] [] 0 initialState))) = []"
  using prediction_shift_silent_on_probabilities[where
          ?predictions1.0 = "[fedMarket 0.40]" and ?predictions2.0 = "[fedMarket 0.47]"
          and ?st2.0 = "snd (analyzeCorrelations [] [fedMarket 0.40] [] 0 initialState)"
          and ?events1.0 = "[]" and ?markets1.0 = "[]" and ?now1.0 = 0 and ?st1.0 = initialState
          and ?events2.0 = "[]" and ?markets2.0 = "[]" and ?now2.0 = 300000]
    fed_fraction_call2
  by (simp add: fedMarket_sel currentSnapshot_def extractTopics_def newMap_def
        fed_slice fed_related mapGet_def newsActivityOf_def)

section \<open>Convergence\<close>

text \<open>
  Claim C3, as amended. Let a previous snapshot exist. For every clustered event of the
  cycle with at least 3 member items published within the last 30 minutes whose sources
  span at least 3 distinct source categories other than \<open>other\<close>, and whose dedupe key
  (type, cluster id, number of distinct categories) has not been seen recently: a
  convergence candidate with that key is generated in the call, and the returned list
  holds exactly one convergence signal, the first convergence candidate of the cycle, with
  confidence at least 0.9.
\<close>

theorem convergence_generated:
  assumes prev: "previousSnapshot st = Some prevSnap"
    and e: "e \<in> set events"
    and recent: "3 \<le> length (recentItemsOf now e)"
    and types: "3 \<le> card ((\<lambda>item. getSourceType (source item)) ` set (recentItemsOf now e) - {other})"
    and fresh: "\<not> isRecentDuplicate
        (generateDedupeKey convergence (ev_id e) (of_nat (length (sourceTypesOf (recentItemsOf now e))))) st"
  shows "(\<exists>s. (generateDedupeKey convergence (ev_id e) (of_nat (length (sourceTypesOf (recentItemsOf now e)))), s)
                \<in> set (candidatesOf events predictions markets now st))
       \<and> (\<exists>c. List.find (\<lambda>c. sig_type (snd c) = convergence)
                  (candidatesOf events predictions markets now st) = Some c
              \<and> filter (\<lambda>s. sig_type s = convergence)
                   (fst (analyzeCorrelations events predictions markets now st)) = [snd c]
              \<and> 0.9 \<le> confidence (snd c))"
proof -
  let ?k = "generateDedupeKey convergence (ev_id e) (of_nat (length (sourceTypesOf (recentItemsOf now e))))"
  let ?cur = "currentSnapshot events predictions markets now"
  let ?cs = "candidatesOf events predictions markets now st"
  obtain s1 st3 conv st5 cands st6 where
    conv: "detectConvergence events now (st3\<lparr>previousSnapshot := Some ?cur\<rparr>) = (conv, st5)"
    and coll: "collectSignals events predictions markets now prevSnap st = (cands, st6)"
    and m5: "marks now st (s1 @ conv) st5" and m6: "marks now st cands st6"
    and sub: "set (s1 @ conv) \<subseteq> set cands"
    using collectSignals_summary[of events now prevSnap st predictions markets] by fastforce
  have types': "3 \<le> length (filter (\<lambda>t. t \<noteq> other) (sourceTypesOf (recentItemsOf now e)))"
    using types by (simp add: sourceTypesOf_named)
  have "?k \<in> set (recentSignalKeys (snd (foldl (convergenceStep now)
                ([], st3\<lparr>previousSnapshot := Some ?cur\<rparr>) events)))"
    by (rule foldl_progress[OF convergenceStep_stepLike e])
       (rule convergenceStep_progress[OF recent types'])
  then have "?k \<in> set (recentSignalKeys st5)" using conv by (simp add: detectConvergence_def)
  then have "?k \<in> fst ` set (s1 @ conv)"
    using candidate_of_new_key[OF m5] fresh by (simp add: isRecentDuplicate_def)
  then have k_in: "?k \<in> fst ` set ?cs" using sub prev coll by (auto simp: candidatesOf_def)
  then have first: "\<exists>s. (?k, s) \<in> set ?cs" by force
  have "fst ?k = convergence" by (simp add: generateDedupeKey_def)
  with k_in obtain c where c: "List.find (\<lambda>c. sig_type (snd c) = convergence) ?cs = Some c"
      "c \<in> set ?cs" "sig_type (snd c) = convergence"
      "filter (\<lambda>s. sig_type s = convergence)
         (fst (analyzeCorrelations events predictions markets now st)) = [snd c]"
    using one_signal_of_type by blast
  from candidatesOf_ok[OF c(2)] c(3) have "0.9 \<le> confidence (snd c)" by (simp add: candidateOK_def)
  with first c(1) c(4) show ?thesis by blast
qed


theorem convergence_generated_witness:
  "previousSnapshot emptyCycleState = Some (currentSnapshot [] [] [] 0)
   \<and> summitCluster ''c1'' [''Reuters'', ''White House'', ''BBC World'']
         \<in> set [summitCluster ''c1'' [''Reuters'', ''White House'', ''BBC World'']]
   \<and> 3 \<le> length (recentItemsOf 600000 (summitCluster ''c1'' [''Reuters'', ''White House'', ''BBC World'']))
   \<and> 3 \<le> card ((\<lambda>item. getSourceType (source item)) `
                   set (recentItemsOf 600000 (summitCluster ''c1'' [''Reuters'', ''White House'', ''BBC World'']))
                 - {other})
   \<and> \<not> isRecentDuplicate (convergence, ''c1'', 3) emptyCycleState
   \<and> (\<exists>s. ((convergence, ''c1'', 3), s)
              \<in> set (candidatesOf [summitCluster ''c1'' [''Reuters'', ''White House'', ''BBC World'']] [] []
                       600000 emptyCycleState))
   \<and> (\<exists>c. List.find (\<lambda>c. sig_type (snd c) = convergence)
              (candidatesOf [summitCluster ''c1'' [''Reuters'', ''White House'', ''BBC World'']] [] []
                 600000 emptyCycleState) = Some c
          \<and> filter (\<lambda>s. sig_type s = convergence)
               (fst (analyzeCorrelations [summitCluster ''c1'' [''Reuters'', ''White House'', ''BBC World'']]
                       [] [] 600000 emptyCycleState)) = [snd c]
          \<and> 0.9 \<le> confidence (snd c))"
proof -
  let ?e = "summitCluster ''c1'' [''Reuters'', ''White House'', ''BBC World'']"
  have recent: "recentItemsOf 600000 ?e = map summitItem [''Reuters'', ''White House'', ''BBC World'']"
    by (simp add: recentItemsOf_def summitCluster_sel summitItem_sel WINDOW_MS_def)
  have types: "sourceTypesOf (recentItemsOf 600000 ?e) = [wire, gov, mainstream]"
    by (simp add: recent sourceTypesOf_def summitItem_sel src_types setAdd_def)
  have key: "generateDedupeKey convergence (ev_id ?e) (of_nat (length (sourceTypesOf (recentItemsOf 600000 ?e))))
               = (convergence, ''c1'', 3)"
    by (simp add: types summitCluster_sel generateDedupeKey_def Math_round_def floor_numeral_div)
  have h1: "previousSnapshot emptyCycleState = Some (currentSnapshot [] [] [] 0)"
    by (simp add: emptyCycleState_def analyzeCorrelations_def initialState_def)
  have h3: "3 \<le> length (recentItemsOf 600000 ?e)" by (simp add: recent)
  have h4: "3 \<le> card ((\<lambda>item. getSourceType (source item)) ` set (recentItemsOf 600000 ?e) - {other})"
    by (simp add: recent summitItem_sel src_types)
  have h5: "\<not> isRecentDuplicate (convergence, ''c1'', 3) emptyCycleState"
    by (simp add: emptyCycleState_eq isRecentDuplicate_def)
  show ?thesis
    using convergence_generated[of emptyCycleState "currentSnapshot [] [] [] 0" ?e "[?e]" 600000 "[]" "[]"]
      h1 h3 h4 h5
    by (simp add: key)
qed

text \<open>
  Claim C3 as stated fails in three ways: the category \<open>other\<close> does not count towards
  the three categories (wire, gov, other: no signal); on a cold start nothing is returned;
  and of two qualifying clusters of one cycle only one gets a signal.
\<close>

theorem convergence_counterexample:
  "fst (analyzeCorrelations [summitCluster ''c1'' [''Reuters'', ''White House'', ''Local Blog'']] [] []
          600000 emptyCycleState) = []
   \<and> fst (analyzeCorrelations [summitCluster ''c1'' [''Reuters'', ''White House'', ''BBC World'']] [] []
          600000 initialState) = []
   \<and> length (fst (analyzeCorrelations
                      [summitCluster ''c1'' [''Reuters'', ''White House'', ''BBC World''],
                       summitCluster ''c2'' [''AP News'', ''Pentagon'', ''Al Jazeera'']] [] []
                      600000 emptyCycleState)) = 1"
proof (intro conjI)
  show "fst (analyzeCorrelations [summitCluster ''c1'' [''Reuters'', ''White House'', ''Local Blog'']] [] []
          600000 emptyCycleState) = []"
    by (rule convergence_other_call)
  show "fst (analyzeCorrelations [summitCluster ''c1'' [''Reuters'', ''White House'', ''BBC World'']] [] []
          600000 initialState) = []"
    by (simp add: analyzeCorrelations_def initialState_def)
  show "length (fst (analyzeCorrelations
                      [summitCluster ''c1'' [''Reuters'', ''White House'', ''BBC World''],
                       summitCluster ''c2'' [''AP News'', ''Pentagon'', ''Al Jazeera'']] [] []
                      600000 emptyCycleState)) = 1"
    by (simp add: analyzeCorrelations_def emptyCycleState_eq collectSignals_def summit_topics
        detectConvergence_def detectTriangulation_def convergenceStep_def triangulationStep_def
        summitCluster_sel recentItemsOf_def WINDOW_MS_def summitItem_sel sourceTypesOf_def
        src_types setAdd_def Let_def CRITICAL_TYPES_def dedupeByType_def
        generateDedupeKey_def Math_round_def floor_numeral_div isRecentDuplicate_def
        markSignalSeen_def generateSignalId_def)
qed

section \<open>Deduplication within thirty minutes\<close>



section \<open>Keys are marked before the output filters\<close>

text \<open>
  Claim C10. Let the pending timers agree with the set of recent keys. Every candidate
  \<open>(k, s)\<close> that a call of \<open>analyzeCorrelations\<close> pushes onto the array \<open>signals\<close> has
  its key \<open>k\<close> in the set of recent keys when the call ends, whether or not the per-type
  filter and the confidence floor keep \<open>s\<close> in the returned list; the key is still there
  at any time less than 30 minutes later, and a call made then generates no candidate with
  that key, whatever its arguments. The witness is a candidate that the per-type filter
  drops and that the next cycle, with the same market move, does not report either.
\<close>

theorem candidate_marked_before_filters:
  assumes "timersConsistent st"
    and "(k, s) \<in> set (candidatesOf events predictions markets now st)"
    and "now2 < now + 30 * 60 * 1000"
  shows "isRecentDuplicate k (snd (analyzeCorrelations events predictions markets now st))
       \<and> isRecentDuplicate k (runTimers now2 (snd (analyzeCorrelations events predictions markets now st)))
       \<and> k \<notin> fst ` set (candidatesOf events2 predictions2 markets2 now2
                           (runTimers now2 (snd (analyzeCorrelations events predictions markets now st))))"
proof -
  let ?cs = "candidatesOf events predictions markets now st"
  let ?st1 = "snd (analyzeCorrelations events predictions markets now st)"
  let ?c2 = "candidatesOf events2 predictions2 markets2 now2 (runTimers now2 ?st1)"
  have m: "marks now st ?cs ?st1" by (rule candidatesOf_marks)
  from assms(2) have k: "k \<in> fst ` set ?cs" by force
  from m k have a: "isRecentDuplicate k ?st1" by (auto simp: marks_def isRecentDuplicate_def)
  from marked_key_survives[OF assms(1) m k assms(3)]
  have b: "isRecentDuplicate k (runTimers now2 ?st1)" by (simp add: isRecentDuplicate_def)
  then have c: "k \<notin> fst ` set ?c2" by (rule no_candidate_for_seen_key)
  show ?thesis using a b c by blast
qed

theorem candidate_marked_before_filters_witness:
  "timersConsistent emptyCycleState
   \<and> ((silent_divergence, ''BBB'', 4), secondDivergence)
        \<in> set (candidatesOf [] [] [quietMarket ''AAA'' 3, quietMarket ''BBB'' 4] 300000 emptyCycleState)
   \<and> (600000 :: int) < 300000 + 30 * 60 * 1000
   \<and> secondDivergence
        \<notin> set (fst (analyzeCorrelations [] [] [quietMarket ''AAA'' 3, quietMarket ''BBB'' 4]
                       300000 emptyCycleState))
   \<and> isRecentDuplicate (silent_divergence, ''BBB'', 4)
        (snd (analyzeCorrelations [] [] [quietMarket ''AAA'' 3, quietMarket ''BBB'' 4] 300000 emptyCycleState))
   \<and> (silent_divergence, ''BBB'', 4)
        \<notin> fst ` set (candidatesOf [] [] [quietMarket ''BBB'' 4] 600000
                        (runTimers 600000
                           (snd (analyzeCorrelations [] [] [quietMarket ''AAA'' 3, quietMarket ''BBB'' 4]
                                   300000 emptyCycleState))))
   \<and> fst (analyzeCorrelations [] [] [quietMarket ''BBB'' 4] 600000
             (runTimers 600000
                (snd (analyzeCorrelations [] [] [quietMarket ''AAA'' 3, quietMarket ''BBB'' 4]
                        300000 emptyCycleState)))) = []"
proof -
  have c: "timersConsistent emptyCycleState"
    by (simp add: emptyCycleState_eq timersConsistent_def)
  have k: "((silent_divergence, ''BBB'', 4), secondDivergence)
        \<in> set (candidatesOf [] [] [quietMarket ''AAA'' 3, quietMarket ''BBB'' 4] 300000 emptyCycleState)"
    by (simp add: two_markets_candidates)
  have t: "(600000 :: int) < 300000 + 30 * 60 * 1000" by simp
  have d: "secondDivergence
        \<notin> set (fst (analyzeCorrelations [] [] [quietMarket ''AAA'' 3, quietMarket ''BBB'' 4]
                       300000 emptyCycleState))"
    by (simp add: two_markets_output secondDivergence_def)
  from candidate_marked_before_filters[OF c k t, of "[]" "[]" "[quietMarket ''BBB'' 4]"]
  show ?thesis using c k t d second_market_later by blast
qed

section \<open>The hotspot counters\<close>

lemma hoursAgo_bands:
  "(of_int a / (1000 * 60 * 60) :: rat) < 1 \<longleftrightarrow> a < 3600000"
  "(of_int a / (1000 * 60 * 60) :: rat) < 6 \<longleftrightarrow> a < 6 * 3600000"
  "(of_int a / (1000 * 60 * 60) :: rat) < 24 \<longleftrightarrow> a < 24 * 3600000"
  by (simp_all add: divide_less_eq)

lemma tallyStep_spec:
  "tallyStep spot now (score, breaking, matchedCount) item =
     (if matchesHotspot spot item
      then (score + spec_itemScore spot now item, breaking \<or> isAlert item, Suc matchedCount)
      else (score, breaking, matchedCount))"
  by (simp add: tallyStep_def matchesHotspot_def spec_itemScore_def spec_recencyBonus_def
        Let_def hoursAgo_bands)

lemma tally_spec:
  "foldl (tallyStep spot now) (score, breaking, matchedCount) items =
     (score + spec_score spot now items,
      breaking \<or> spec_breaking spot items,
      matchedCount + spec_matchedCount spot items)"
proof (induction items arbitrary: score breaking matchedCount)
  case Nil
  show ?case by (simp add: spec_score_def spec_breaking_def spec_matchedCount_def)
next
  case (Cons item items)
  show ?case
    by (simp add: tallyStep_spec Cons.IH spec_score_def spec_breaking_def spec_matchedCount_def)
qed

lemma activityLevel_spec:
  "activityLevel b m s = (spec_level b m s, spec_status b m s)"
  by (simp add: activityLevel_def spec_level_def spec_status_def)

lemma updateHotspot_spec:
  "updateHotspot items now spot =
     spot\<lparr>hasBreaking := Some (spec_breaking spot items),
          level := Some (spec_level (spec_breaking spot items) (spec_matchedCount spot items)
                           (spec_score spot now items)),
          status := Some (spec_status (spec_breaking spot items) (spec_matchedCount spot items)
                            (spec_score spot now items))\<rparr>"
  by (simp add: updateHotspot_def tally_spec activityLevel_spec)



lemma spec_itemScore_nonneg: "0 \<le> spec_itemScore spot now item"
  by (simp add: spec_itemScore_def spec_recencyBonus_def Let_def)

lemma subseq_sum_list_mono:
  assumes "subseq xs ys" and "\<And>x. (0::rat) \<le> f x"
  shows "sum_list (map f xs) \<le> sum_list (map f ys)"
  using assms(1)
proof (induction rule: list_emb.induct)
  case (list_emb_Nil ys)
  have "0 \<le> sum_list (map f ys)"
    by (rule sum_list_nonneg) (auto simp: assms(2))
  then show ?case by simp
next
  case (list_emb_Cons xs ys y)
  then show ?case using assms(2)[of y] by simp
next
  case (list_emb_Cons2 x y xs ys)
  then show ?case by simp
qed

lemma spec_counters_mono:
  assumes "subseq items items'"
  shows "spec_matchedCount spot items \<le> spec_matchedCount spot items'"
    and "spec_score spot now items \<le> spec_score spot now items'"
    and "spec_breaking spot items \<Longrightarrow> spec_breaking spot items'"
proof -
  have f: "subseq (filter (matchesHotspot spot) items) (filter (matchesHotspot spot) items')"
    using assms by (rule subseq_filter)
  show "spec_matchedCount spot items \<le> spec_matchedCount spot items'"
    using f by (simp add: spec_matchedCount_def list_emb_length)
  show "spec_score spot now items \<le> spec_score spot now items'"
    unfolding spec_score_def using f spec_itemScore_nonneg by (rule subseq_sum_list_mono)
  have "set items \<subseteq> set items'"
    using assms by (auto elim: list_emb_set)
  then show "spec_breaking spot items \<Longrightarrow> spec_breaking spot items'"
    by (auto simp: spec_breaking_def)
qed

lemma activityLevel_mono:
  assumes "b \<longrightarrow> b'" and "m \<le> m'" and "s \<le> s'"
  shows "severity (fst (activityLevel b m s)) \<le> severity (fst (activityLevel b' m' s'))"
  using assms by (auto simp: activityLevel_def)

section \<open>The tel aviv scenario, evaluated\<close>

lemma newsItem_sel:
  "title (newsItem t a) = t" "isAlert (newsItem t a) = a" "pubDate (newsItem t a) = 0"
  by (simp_all add: newsItem_def)

lemma lower_titles:
  "toLowerCase ''Gaza strike reported'' = ''gaza strike reported''"
  "toLowerCase ''Markets rally'' = ''markets rally''"
  by (simp_all add: toLowerCase_def toLowerChar_def)

lemma telaviv_matches:
  "matchedKeywords hotspot_telaviv (newsItem ''Gaza strike reported'' a) = [''gaza'']"
  "matchedKeywords hotspot_telaviv (newsItem ''Markets rally'' a) = []"
  by (simp_all add: matchedKeywords_def Let_def newsItem_sel hotspot_telaviv_def lower_titles
        keywordInTitle_def toLowerCase_def toLowerChar_def)

lemma telaviv_counts_unflagged:
  "spec_matchedCount hotspot_telaviv
     [newsItem ''Gaza strike reported'' False, newsItem ''Gaza strike reported'' False,
      newsItem ''Gaza strike reported'' False, newsItem ''Gaza strike reported'' False,
      newsItem ''Markets rally'' True] = 4"
  "\<not> spec_breaking hotspot_telaviv
     [newsItem ''Gaza strike reported'' False, newsItem ''Gaza strike reported'' False,
      newsItem ''Gaza strike reported'' False, newsItem ''Gaza strike reported'' False,
      newsItem ''Markets rally'' True]"
  by (simp_all add: spec_matchedCount_def spec_breaking_def matchesHotspot_def telaviv_matches
        newsItem_sel)

lemma telaviv_levels:
  "level (updateHotspot [newsItem ''Gaza strike reported'' False] 0 hotspot_telaviv) = Some elevated"
  "level (updateHotspot
            [newsItem ''Gaza strike reported'' False, newsItem ''Gaza strike reported'' False,
             newsItem ''Gaza strike reported'' False, newsItem ''Gaza strike reported'' False]
            0 hotspot_telaviv) = Some high"
  by (simp_all add: updateHotspot_spec spec_level_def spec_matchedCount_def spec_breaking_def
        spec_score_def spec_itemScore_def spec_recencyBonus_def matchesHotspot_def
        telaviv_matches newsItem_sel)

section \<open>Hotspot classification\<close>

text \<open>
  Claim C2, as amended. For every news corpus, \<open>updateHotspotActivity\<close> gives every
  hotspot the level high exactly when an alert-flagged matching item is present or
  matchedCount is at least 4 or score is at least 10; otherwise elevated when matchedCount
  is at least 2 or score is at least 4; otherwise low. The status is "BREAKING NEWS" when an
  alert-flagged matching item is present, else "High activity", "Elevated activity",
  "Recent mentions" (matchedCount at least 1) or "Monitoring" by the same thresholds. In
  particular, for the hotspot "telaviv" and 5 news items of which 4 contain "gaza" and of
  which one that matches a keyword of the hotspot is flagged as an alert, the level is high
  and the status "BREAKING NEWS".
\<close>

theorem hotspot_classification:
  "hotspots (updateHotspotActivity items now this) =
     map (\<lambda>spot.
            spot\<lparr>hasBreaking := Some (spec_breaking spot items),
                 level := Some (spec_level (spec_breaking spot items) (spec_matchedCount spot items)
                                  (spec_score spot now items)),
                 status := Some (spec_status (spec_breaking spot items) (spec_matchedCount spot items)
                                   (spec_score spot now items))\<rparr>)
         (hotspots this)
   \<and> (length items = 5
        \<and> length (filter (\<lambda>item. str_includes (toLowerCase (title item)) ''gaza'') items) = 4
        \<and> (\<exists>item \<in> set items. isAlert item \<and> matchesHotspot hotspot_telaviv item)
        \<longrightarrow> level (updateHotspot items now hotspot_telaviv) = Some high
            \<and> status (updateHotspot items now hotspot_telaviv) = Some ''BREAKING NEWS'')"
proof (intro conjI impI)
  show "hotspots (updateHotspotActivity items now this) =
     map (\<lambda>spot.
            spot\<lparr>hasBreaking := Some (spec_breaking spot items),
                 level := Some (spec_level (spec_breaking spot items) (spec_matchedCount spot items)
                                  (spec_score spot now items)),
                 status := Some (spec_status (spec_breaking spot items) (spec_matchedCount spot items)
                                   (spec_score spot now items))\<rparr>)
         (hotspots this)"
    by (simp add: updateHotspotActivity_def updateHotspot_spec)
next
  assume "length items = 5
        \<and> length (filter (\<lambda>item. str_includes (toLowerCase (title item)) ''gaza'') items) = 4
        \<and> (\<exists>item \<in> set items. isAlert item \<and> matchesHotspot hotspot_telaviv item)"
  then have b: "spec_breaking hotspot_telaviv items" by (auto simp: spec_breaking_def)
  show "level (updateHotspot items now hotspot_telaviv) = Some high"
    using b by (simp add: updateHotspot_spec spec_level_def)
  show "status (updateHotspot items now hotspot_telaviv) = Some ''BREAKING NEWS''"
    using b by (simp add: updateHotspot_spec spec_status_def)
qed

theorem hotspot_classification_witness:
  "length [newsItem ''Gaza strike reported'' True, newsItem ''Gaza strike reported'' False,
           newsItem ''Gaza strike reported'' False, newsItem ''Gaza strike reported'' False,
           newsItem ''Markets rally'' False] = 5
   \<and> length (filter (\<lambda>item. str_includes (toLowerCase (title item)) ''gaza'')
          [newsItem ''Gaza strike reported'' True, newsItem ''Gaza strike reported'' False,
           newsItem ''Gaza strike reported'' False, newsItem ''Gaza strike reported'' False,
           newsItem ''Markets rally'' False]) = 4
   \<and> (\<exists>item \<in> set [newsItem ''Gaza strike reported'' True, newsItem ''Gaza strike reported'' False,
           newsItem ''Gaza strike reported'' False, newsItem ''Gaza strike reported'' False,
           newsItem ''Markets rally'' False]. isAlert item \<and> matchesHotspot hotspot_telaviv item)
   \<and> level (updateHotspot
          [newsItem ''Gaza strike reported'' True, newsItem ''Gaza strike reported'' False,
           newsItem ''Gaza strike reported'' False, newsItem ''Gaza strike reported'' False,
           newsItem ''Markets rally'' False] 0 hotspot_telaviv) = Some high
   \<and> status (updateHotspot
          [newsItem ''Gaza strike reported'' True, newsItem ''Gaza strike reported'' False,
           newsItem ''Gaza strike reported'' False, newsItem ''Gaza strike reported'' False,
           newsItem ''Markets rally'' False] 0 hotspot_telaviv) = Some ''BREAKING NEWS''"
proof -
  let ?items = "[newsItem ''Gaza strike reported'' True, newsItem ''Gaza strike reported'' False,
           newsItem ''Gaza strike reported'' False, newsItem ''Gaza strike reported'' False,
           newsItem ''Markets rally'' False]"
  have h1: "length ?items = 5" by simp
  have h2: "length (filter (\<lambda>item. str_includes (toLowerCase (title item)) ''gaza'') ?items) = 4"
    by (simp only: filter.simps newsItem_sel lower_titles) simp
  have h3: "\<exists>item \<in> set ?items. isAlert item \<and> matchesHotspot hotspot_telaviv item"
    by (simp add: matchesHotspot_def telaviv_matches newsItem_sel)
  from hotspot_classification[of ?items 0 "\<lparr>news = [], hotspots = [hotspot_telaviv]\<rparr>"] h1 h2 h3
  show ?thesis by blast
qed

text \<open>
  Claim C2 as stated fails when the flagged item is the one that matches no keyword: four
  unflagged items about Gaza and a flagged item about something else give the level high
  with the status "High activity".
\<close>

theorem hotspot_alert_counterexample:
  "status (updateHotspot
          [newsItem ''Gaza strike reported'' False, newsItem ''Gaza strike reported'' False,
           newsItem ''Gaza strike reported'' False, newsItem ''Gaza strike reported'' False,
           newsItem ''Markets rally'' True] 0 hotspot_telaviv) = Some ''High activity''"
  by (simp add: updateHotspot_spec telaviv_counts_unflagged spec_status_def)

section \<open>Monotonicity of the hotspot severity\<close>

text \<open>
  Claim C9. For a fixed hotspot and a fixed clock, adding news items to the corpus (the
  other items kept, in their order) never lowers the level that \<open>updateHotspotActivity\<close>
  computes, in the order low < elevated < high; and the level is monotone in the counters:
  raising matchedCount or score, or setting the breaking-news flag, never lowers it.
\<close>

theorem severity_monotone:
  "(subseq items items' \<longrightarrow>
      (\<exists>l l'. level (updateHotspot items now spot) = Some l
             \<and> level (updateHotspot items' now spot) = Some l'
             \<and> severity l \<le> severity l'))
   \<and> ((b \<longrightarrow> b') \<and> m \<le> m' \<and> s \<le> s' \<longrightarrow>
        severity (fst (activityLevel b m s)) \<le> severity (fst (activityLevel b' m' s')))"
proof (intro conjI impI)
  assume sub: "subseq items items'"
  let ?l = "fst (activityLevel (spec_breaking spot items) (spec_matchedCount spot items)
                   (spec_score spot now items))"
  let ?l' = "fst (activityLevel (spec_breaking spot items') (spec_matchedCount spot items')
                   (spec_score spot now items'))"
  have "level (updateHotspot items now spot) = Some ?l"
    and "level (updateHotspot items' now spot) = Some ?l'"
    by (simp_all add: updateHotspot_spec activityLevel_spec)
  moreover have "severity ?l \<le> severity ?l'"
    using spec_counters_mono[OF sub] by (intro activityLevel_mono) auto
  ultimately show "\<exists>l l'. level (updateHotspot items now spot) = Some l
             \<and> level (updateHotspot items' now spot) = Some l'
             \<and> severity l \<le> severity l'"
    by blast
next
  assume "(b \<longrightarrow> b') \<and> m \<le> m' \<and> s \<le> s'"
  then show "severity (fst (activityLevel b m s)) \<le> severity (fst (activityLevel b' m' s'))"
    by (intro activityLevel_mono) auto
qed



theorem severity_monotone_witness:
  "subseq [newsItem ''Gaza strike reported'' False]
     [newsItem ''Gaza strike reported'' False, newsItem ''Gaza strike reported'' False,
      newsItem ''Gaza strike reported'' False, newsItem ''Gaza strike reported'' False]
   \<and> level (updateHotspot [newsItem ''Gaza strike reported'' False] 0 hotspot_telaviv) = Some elevated
   \<and> level (updateHotspot
            [newsItem ''Gaza strike reported'' False, newsItem ''Gaza strike reported'' False,
             newsItem ''Gaza strike reported'' False, newsItem ''Gaza strike reported'' False]
            0 hotspot_telaviv) = Some high
   \<and> severity elevated \<le> severity high
   \<and> (1 :: nat) \<le> 4 \<and> (5 :: rat) \<le> 20
   \<and> severity (fst (activityLevel False 1 5)) \<le> severity (fst (activityLevel True 4 20))"
proof -
  have s: "subseq [newsItem ''Gaza strike reported'' False]
     [newsItem ''Gaza strike reported'' False, newsItem ''Gaza strike reported'' False,
      newsItem ''Gaza strike reported'' False, newsItem ''Gaza strike reported'' False]"
    by simp
  have h: "(False \<longrightarrow> True) \<and> (1 :: nat) \<le> 4 \<and> (5 :: rat) \<le> 20" by simp
  from severity_monotone[of "[newsItem ''Gaza strike reported'' False]"
      "[newsItem ''Gaza strike reported'' False, newsItem ''Gaza strike reported'' False,
        newsItem ''Gaza strike reported'' False, newsItem ''Gaza strike reported'' False]"
      0 hotspot_telaviv False True 1 4 5 20] s h
  have "(\<exists>l l'. level (updateHotspot [newsItem ''Gaza strike reported'' False] 0 hotspot_telaviv) = Some l
           \<and> level (updateHotspot
                  [newsItem ''Gaza strike reported'' False, newsItem ''Gaza strike reported'' False,
                   newsItem ''Gaza strike reported'' False, newsItem ''Gaza strike reported'' False]
                  0 hotspot_telaviv) = Some l'
           \<and> severity l \<le> severity l')
        \<and> severity (fst (activityLevel False 1 5)) \<le> severity (fst (activityLevel True 4 20))"
    by blast
  then show ?thesis using s by (simp add: telaviv_levels)
qed

section \<open>Related news of a hotspot\<close>

lemma relatedEntry_spec:
  "relatedEntry hotspot item =
     (if keepsRelated hotspot item then Some (item, length (matchedKeywords hotspot item)) else None)"
proof (cases "matchedKeywords hotspot item = []")
  case True
  then show ?thesis by (simp add: relatedEntry_def keepsRelated_def matchesHotspot_def)
next
  case False
  then obtain kw0 where kw0: "kw0 \<in> set (matchedKeywords hotspot item)"
    by (cases "matchedKeywords hotspot item") auto
  let ?code = "\<exists>kw \<in> set (matchedKeywords hotspot item).
                 toLowerCase kw = toLowerCase (hs_name hotspot)
                 \<or> (case agencies hotspot of
                       None \<Rightarrow> False
                     | Some ags \<Rightarrow> \<exists>a \<in> set ags. str_includes (toLowerCase (title item)) (toLowerCase a))"
  have strong: "?code \<longleftrightarrow> strongLocalMarker hotspot item"
    using kw0 by (cases "agencies hotspot") (auto simp: strongLocalMarker_def)
  have conflict: "0 < length (filter (\<lambda>t. str_includes (toLowerCase (title item)) t
                          \<and> \<not> (\<exists>k \<in> set (hs_keywords hotspot). str_includes (toLowerCase k) t))
                conflictTopics) \<longleftrightarrow> mentionsOtherConflict hotspot item"
    by (simp only: length_greater_0_conv filter_empty_conv mentionsOtherConflict_def) blast
  show ?thesis
    using False strong conflict
    by (simp only: relatedEntry_def Let_def keepsRelated_def matchesHotspot_def) auto
qed

lemma map_filter_relatedEntry:
  "List.map_filter (relatedEntry hotspot) items =
     map (\<lambda>item. (item, length (matchedKeywords hotspot item))) (filter (keepsRelated hotspot) items)"
  by (induction items) (simp_all add: relatedEntry_spec)

lemma insort_key_map:
  "insort_key f (g x) (map g ys) = map g (insort_key (\<lambda>y. f (g y)) x ys)"
  by (induction ys) simp_all

lemma sort_key_map:
  "sort_key f (map g xs) = map g (sort_key (\<lambda>y. f (g y)) xs)"
  by (induction xs) (simp_all add: insort_key_map)

lemma getRelatedNews_spec:
  "getRelatedNews hotspot this =
     take 5 (sort_key (\<lambda>item. - int (length (matchedKeywords hotspot item)))
               (filter (keepsRelated hotspot) (news this)))"
  by (simp add: getRelatedNews_def map_filter_relatedEntry sort_key_map take_map comp_def)

section \<open>The hotspot "dc" and two headlines, evaluated\<close>

lemma dc_lower_titles:
  "toLowerCase ''Gaza ceasefire talks stall as Pentagon briefs allies'' =
     ''gaza ceasefire talks stall as pentagon briefs allies''"
  "toLowerCase ''Gaza aid debate reaches Congress'' = ''gaza aid debate reaches congress''"
  by (simp_all add: toLowerCase_def toLowerChar_def)

lemma dc_matches:
  "title item = ''Gaza ceasefire talks stall as Pentagon briefs allies'' \<Longrightarrow>
     matchedKeywords hotspot_dc item = [''pentagon'']"
  "title item = ''Gaza aid debate reaches Congress'' \<Longrightarrow>
     matchedKeywords hotspot_dc item = [''congress'']"
  by (simp_all add: matchedKeywords_def Let_def hotspot_dc_def dc_lower_titles
        keywordInTitle_def toLowerCase_def toLowerChar_def)

lemma dc_agencies: "agencies hotspot_dc = Some [''Pentagon'', ''CIA'', ''NSA'', ''State Dept'']"
  by (simp add: hotspot_dc_def)

lemma dc_agencies_lower:
  "toLowerCase ''Pentagon'' = ''pentagon''" "toLowerCase ''CIA'' = ''cia''"
  "toLowerCase ''NSA'' = ''nsa''" "toLowerCase ''State Dept'' = ''state dept''"
  by (simp_all add: toLowerCase_def toLowerChar_def)

lemma dc_pentagon_strong:
  assumes "title item = ''Gaza ceasefire talks stall as Pentagon briefs allies''"
  shows "strongLocalMarker hotspot_dc item"
proof -
  have "str_includes (toLowerCase (title item)) (toLowerCase ''Pentagon'')"
    by (simp add: assms dc_lower_titles dc_agencies_lower)
  moreover have "''Pentagon'' \<in> set [''Pentagon'', ''CIA'', ''NSA'', ''State Dept'']" by simp
  ultimately show ?thesis unfolding strongLocalMarker_def using dc_agencies by blast
qed

lemma dc_pentagon_kept:
  assumes "title item = ''Gaza ceasefire talks stall as Pentagon briefs allies''"
  shows "relatedEntry hotspot_dc item = Some (item, 1)"
  using dc_pentagon_strong[OF assms]
  by (simp add: relatedEntry_spec keepsRelated_def matchesHotspot_def dc_matches(1)[OF assms])

lemma dc_congress_conflict:
  "mentionsOtherConflict hotspot_dc (newsItem ''Gaza aid debate reaches Congress'' a)"
proof -
  have t: "''gaza'' \<in> set conflictTopics" by (simp add: conflictTopics_def)
  have inc: "str_includes (toLowerCase (title (newsItem ''Gaza aid debate reaches Congress'' a))) ''gaza''"
    by (simp add: newsItem_sel dc_lower_titles)
  have "map toLowerCase (hs_keywords hotspot_dc) = hs_keywords hotspot_dc"
    by (simp add: hotspot_dc_def toLowerCase_def toLowerChar_def)
  moreover have "filter (\<lambda>k. str_includes k ''gaza'') (hs_keywords hotspot_dc) = []"
    by (simp add: hotspot_dc_def)
  ultimately have "filter (\<lambda>k. str_includes k ''gaza'') (map toLowerCase (hs_keywords hotspot_dc)) = []"
    by simp
  then have "\<not> (\<exists>k \<in> set (hs_keywords hotspot_dc). str_includes (toLowerCase k) ''gaza'')"
    by (simp only: filter_empty_conv set_map) blast
  with t inc show ?thesis unfolding mentionsOtherConflict_def by blast
qed

lemma dc_congress_not_strong:
  "\<not> strongLocalMarker hotspot_dc (newsItem ''Gaza aid debate reaches Congress'' a)"
proof -
  have nm: "toLowerCase (hs_name hotspot_dc) = ''dc''" "toLowerCase ''congress'' = ''congress''"
    by (simp_all add: hotspot_dc_def toLowerCase_def toLowerChar_def)
  have a: "\<not> (\<exists>kw \<in> set (matchedKeywords hotspot_dc (newsItem ''Gaza aid debate reaches Congress'' a)).
               toLowerCase kw = toLowerCase (hs_name hotspot_dc))"
    by (simp add: dc_matches newsItem_sel nm)
  have f: "filter (keywordInTitle ''gaza aid debate reaches congress'')
             [''Pentagon'', ''CIA'', ''NSA'', ''State Dept''] = []"
    by (simp add: keywordInTitle_def dc_agencies_lower)
  have b: "\<not> (\<exists>x \<in> set [''Pentagon'', ''CIA'', ''NSA'', ''State Dept''].
               str_includes (toLowerCase (title (newsItem ''Gaza aid debate reaches Congress'' a)))
                 (toLowerCase x))"
    using f by (simp only: filter_empty_conv keywordInTitle_def newsItem_sel dc_lower_titles) blast
  show ?thesis unfolding strongLocalMarker_def using a b dc_agencies by auto
qed


section \<open>Cross-topic suppression in the related news\<close>

text \<open>
  Claim C4, as amended. For every hotspot and news item: if the title of the item matches at
  least one keyword of the hotspot but also mentions a conflict topic of the hardcoded list
  that no keyword of the hotspot covers, and the item has no strong local marker (a matched
  keyword equal to the name of the hotspot, or a listed agency in the title), then
  \<open>getRelatedNews\<close> does not return it. The items returned are the first five of the
  remaining matches in a stable order of descending keyword-match count. For the hotspot
  "dc", of which Pentagon is a listed agency, an item titled "Gaza ceasefire talks stall as
  Pentagon briefs allies" has a strong local marker: the rule keeps it, with one matched
  keyword.
\<close>

theorem related_news_rule:
  "(matchesHotspot hotspot item \<and> mentionsOtherConflict hotspot item
      \<and> \<not> strongLocalMarker hotspot item
      \<longrightarrow> item \<notin> set (getRelatedNews hotspot this))
   \<and> getRelatedNews hotspot this =
        take 5 (sort_key (\<lambda>item. - int (length (matchedKeywords hotspot item)))
                  (filter (keepsRelated hotspot) (news this)))
   \<and> sorted_wrt (\<lambda>a b. length (matchedKeywords hotspot a) \<ge> length (matchedKeywords hotspot b))
        (getRelatedNews hotspot this)
   \<and> length (getRelatedNews hotspot this) \<le> 5
   \<and> (title headline = ''Gaza ceasefire talks stall as Pentagon briefs allies'' \<longrightarrow>
        relatedEntry hotspot_dc headline = Some (headline, 1))"
proof (intro conjI impI)
  let ?key = "\<lambda>item. - int (length (matchedKeywords hotspot item))"
  let ?kept = "filter (keepsRelated hotspot) (news this)"
  show eq: "getRelatedNews hotspot this = take 5 (sort_key ?key ?kept)"
    by (rule getRelatedNews_spec)
  show "item \<notin> set (getRelatedNews hotspot this)"
    if "matchesHotspot hotspot item \<and> mentionsOtherConflict hotspot item
          \<and> \<not> strongLocalMarker hotspot item"
  proof
    assume "item \<in> set (getRelatedNews hotspot this)"
    then have "item \<in> set (sort_key ?key ?kept)" unfolding eq by (rule in_set_takeD)
    then have "keepsRelated hotspot item" by simp
    with that show False by (simp add: keepsRelated_def)
  qed
  have "sorted (map ?key (sort_key ?key ?kept))" by (rule sorted_sort_key)
  then have "sorted_wrt (\<lambda>a b. length (matchedKeywords hotspot a) \<ge> length (matchedKeywords hotspot b))
               (sort_key ?key ?kept)"
    by (simp add: sorted_wrt_map)
  then show "sorted_wrt (\<lambda>a b. length (matchedKeywords hotspot a) \<ge> length (matchedKeywords hotspot b))
               (getRelatedNews hotspot this)"
    unfolding eq by (rule sorted_wrt_take)
  show "length (getRelatedNews hotspot this) \<le> 5" by (simp add: eq)
  show "relatedEntry hotspot_dc headline = Some (headline, 1)"
    if "title headline = ''Gaza ceasefire talks stall as Pentagon briefs allies''"
    using that by (rule dc_pentagon_kept)
qed

theorem related_news_rule_witness:
  "matchesHotspot hotspot_dc (newsItem ''Gaza aid debate reaches Congress'' False)
   \<and> mentionsOtherConflict hotspot_dc (newsItem ''Gaza aid debate reaches Congress'' False)
   \<and> \<not> strongLocalMarker hotspot_dc (newsItem ''Gaza aid debate reaches Congress'' False)
   \<and> newsItem ''Gaza aid debate reaches Congress'' False
        \<notin> set (getRelatedNews hotspot_dc (dcMap [newsItem ''Gaza aid debate reaches Congress'' False]))
   \<and> title (newsItem ''Gaza ceasefire talks stall as Pentagon briefs allies'' False) =
        ''Gaza ceasefire talks stall as Pentagon briefs allies''
   \<and> relatedEntry hotspot_dc (newsItem ''Gaza ceasefire talks stall as Pentagon briefs allies'' False) =
        Some (newsItem ''Gaza ceasefire talks stall as Pentagon briefs allies'' False, 1)"
proof -
  have m: "matchesHotspot hotspot_dc (newsItem ''Gaza aid debate reaches Congress'' False)"
    by (simp add: matchesHotspot_def dc_matches newsItem_sel)
  have t: "title (newsItem ''Gaza ceasefire talks stall as Pentagon briefs allies'' False) =
        ''Gaza ceasefire talks stall as Pentagon briefs allies''"
    by (simp add: newsItem_sel)
  from related_news_rule[of hotspot_dc "newsItem ''Gaza aid debate reaches Congress'' False"
         "dcMap [newsItem ''Gaza aid debate reaches Congress'' False]"
         "newsItem ''Gaza ceasefire talks stall as Pentagon briefs allies'' False"]
       m t dc_congress_conflict dc_congress_not_strong
  show ?thesis by blast
qed

text \<open>
  Claim C4 as stated fails at its example: for the hotspot "dc" of the configuration,
  whose agencies include "Pentagon", the headline is returned.
\<close>

theorem related_news_dc_counterexample:
  "getRelatedNews hotspot_dc
     (dcMap [newsItem ''Gaza ceasefire talks stall as Pentagon briefs allies'' False]) =
   [newsItem ''Gaza ceasefire talks stall as Pentagon briefs allies'' False]"
proof -
  have "keepsRelated hotspot_dc (newsItem ''Gaza ceasefire talks stall as Pentagon briefs allies'' False)"
    using dc_pentagon_strong[of "newsItem ''Gaza ceasefire talks stall as Pentagon briefs allies'' False"]
    by (simp add: keepsRelated_def matchesHotspot_def dc_matches newsItem_sel)
  then show ?thesis by (simp add: getRelatedNews_spec dcMap_def)
qed

end
